theory Spec2Isabelle
  imports Main "HOL-Library.AList"
begin

section \<open>JavaScript values and plain objects\<close>

text \<open>
  The data that \<open>superValidate\<close> handles are plain JavaScript values. A plain object is an
  association list from property names to values; \<open>map_of\<close> reads it, so a name bound
  twice shows its first binding only. The order of the properties is not observable in
  any property stated below. Numbers are integers (no arithmetic is done on them); a
  built-in function is known by its name.
\<close>

datatype jsval =
    JUndefined
  | JNull
  | JBool bool
  | JNumber int
  | JString string
  | JArray "jsval list"
  | JObject "(string \<times> jsval) list"
  | JFunction string

type_synonym jsobject = "(string \<times> jsval) list"

text \<open>\<open>!!v\<close>: what JavaScript takes for true in a condition.\<close>

fun truthy :: "jsval \<Rightarrow> bool" where
  "truthy JUndefined = False"
| "truthy JNull = False"
| "truthy (JBool b) = b"
| "truthy (JNumber n) = (n \<noteq> 0)"
| "truthy (JString s) = (s \<noteq> [])"
| "truthy (JArray xs) = True"
| "truthy (JObject ps) = True"
| "truthy (JFunction name) = True"

text \<open>
  Every plain object inherits the members of \<open>Object.prototype\<close>: eleven functions and
  the accessor \<open>__proto__\<close>, which reads as the prototype itself. \<open>key in obj\<close> and
  \<open>obj[key]\<close> follow the prototype chain, so they see these members as well as the own
  properties; \<open>Object.keys\<close> and the spread see own properties only.
\<close>

definition prototype_members :: jsobject where
  "prototype_members =
     [(''constructor'', JFunction ''Object''),
      (''__defineGetter__'', JFunction ''__defineGetter__''),
      (''__defineSetter__'', JFunction ''__defineSetter__''),
      (''hasOwnProperty'', JFunction ''hasOwnProperty''),
      (''__lookupGetter__'', JFunction ''__lookupGetter__''),
      (''__lookupSetter__'', JFunction ''__lookupSetter__''),
      (''isPrototypeOf'', JFunction ''isPrototypeOf''),
      (''propertyIsEnumerable'', JFunction ''propertyIsEnumerable''),
      (''toString'', JFunction ''toString''),
      (''valueOf'', JFunction ''valueOf''),
      (''toLocaleString'', JFunction ''toLocaleString'')]"

definition inherited :: "string \<Rightarrow> jsval option" where
  "inherited key =
     (if key = ''__proto__'' then Some (JObject prototype_members)
      else map_of prototype_members key)"

text \<open>\<open>key in obj\<close> and \<open>obj[key]\<close> (\<open>undefined\<close> for a key that is neither own nor
  inherited).\<close>

definition has_key :: "jsobject \<Rightarrow> string \<Rightarrow> bool" where
  "has_key obj key = (map_of obj key \<noteq> None \<or> inherited key \<noteq> None)"

definition get_prop :: "jsobject \<Rightarrow> string \<Rightarrow> jsval" where
  "get_prop obj key =
     (case map_of obj key of
        Some v \<Rightarrow> v
      | None \<Rightarrow> (case inherited key of Some v \<Rightarrow> v | None \<Rightarrow> JUndefined))"

text \<open>\<open>obj[key] = v\<close> on a plain object. Assigning to \<open>__proto__\<close>, when the object has
  no own property of that name, runs the inherited setter: it sets the prototype (or
  does nothing) and adds no own property. The model keeps the own properties.\<close>

definition assign_prop :: "string \<Rightarrow> jsval \<Rightarrow> jsobject \<Rightarrow> jsobject" where
  "assign_prop key v obj =
     (if key = ''__proto__'' \<and> map_of obj key = None then obj else AList.update key v obj)"

text \<open>\<open>obj[key] = v\<close> in an error tree, \<open>Object.keys(obj)\<close> and the spread
  \<open>{...a, ...b}\<close>.\<close>

definition set_prop :: "string \<Rightarrow> 'v \<Rightarrow> (string \<times> 'v) list \<Rightarrow> (string \<times> 'v) list" where
  "set_prop key v obj = AList.update key v obj"

definition object_keys :: "(string \<times> 'v) list \<Rightarrow> string list" where
  "object_keys obj = map fst obj"

definition spread :: "jsobject \<Rightarrow> jsobject \<Rightarrow> jsobject" where
  "spread a b = AList.merge a b"

section \<open>The types of superValidate.ts\<close>

text \<open>
  \<open>JSONSchema\<close>: the two members \<open>superValidate\<close> reads. \<open>properties\<close> is \<open>None\<close> when the
  schema has none; \<open>additionalProperties\<close> is \<open>JUndefined\<close> when the schema does not set it,
  a boolean or a schema object otherwise.
\<close>

record jsonSchema =
  properties :: "jsobject option"
  additionalProperties :: jsval

text \<open>The error tree of a form: an array of messages, or an object of error trees.\<close>

datatype errs =
    ErrArray "string list"
  | ErrObject "(string \<times> errs) list"

type_synonym errobject = "(string \<times> errs) list"

record issue =
  issue_path :: "string list"
  issue_message :: string

text \<open>\<open>ValidationResult\<close>: \<open>{success: true, data}\<close> or \<open>{success: false, issues}\<close>.\<close>

datatype validationResult =
    Success jsobject
  | Failure "issue list"

text \<open>
  \<open>ValidationAdapter\<close>, as \<open>mapAdapter\<close> returns it. \<open>adapter_validator\<close> stands for
  \<open>validate(validation.validator, \<cdot>)\<close> of the external validation library;
  \<open>adapter_customValidator\<close> is \<open>None\<close> when the adapter has none.
\<close>

record validationAdapter =
  adapter_defaults :: jsobject
  adapter_jsonSchema :: jsonSchema
  adapter_constraints :: jsval
  adapter_validator :: "jsobject \<Rightarrow> validationResult"
  adapter_customValidator :: "(jsobject \<Rightarrow> validationResult) option"
  adapter_objects :: "string list list"

text \<open>
  \<open>SuperValidateOptions\<close>: every member is optional, and the code reads each one as
  \<open>options?.member\<close>, so an absent \<open>options\<close> is the record whose members are all \<open>None\<close>.
\<close>

record superValidateOptions =
  opt_errors :: "bool option"
  opt_id :: "string option"
  opt_preprocessed :: "string list option"
  opt_defaults :: "jsobject option"
  opt_jsonSchema :: "jsonSchema option"
  opt_strict :: "bool option"

text \<open>What \<open>parseRequest\<close> returns; \<open>parsed_data\<close> is \<open>None\<close> for \<open>null\<close> and \<open>undefined\<close>.\<close>

record parsedData =
  parsed_id :: "string option"
  parsed_data :: "jsobject option"
  parsed_posted :: bool

text \<open>\<open>SuperValidated\<close>, the form. \<open>form_errors\<close> is \<open>None\<close> when the member is missing
  (\<open>setError\<close> tests for it).\<close>

record 'm superValidated =
  form_id :: "string option"
  form_valid :: bool
  form_posted :: bool
  form_errors :: "errobject option"
  form_data :: jsobject
  form_constraints :: jsval
  form_message :: "'m option"

text \<open>
  The functions that \<open>superValidate\<close> imports and that are taken as parameters:
  \<open>parseRequest\<close> (the source \<open>data\<close> is \<open>None\<close> for \<open>null\<close> and \<open>undefined\<close>, and any other
  source is truthy), \<open>mapErrors\<close>, and the identifier that \<open>formId()\<close> draws on this call.
\<close>

record 's externals =
  parseRequest :: "'s option \<Rightarrow> jsonSchema \<Rightarrow> superValidateOptions \<Rightarrow> parsedData"
  mapErrors :: "issue list \<Rightarrow> string list list \<Rightarrow> errobject"
  formId :: string

section \<open>superValidate\<close>

text \<open>\<open>options?.defaults ?? validation.defaults\<close> and \<open>options?.jsonSchema ?? validation.jsonSchema\<close>.\<close>

definition sv_defaults :: "validationAdapter \<Rightarrow> superValidateOptions \<Rightarrow> jsobject" where
  "sv_defaults validation options =
     (case opt_defaults options of Some d \<Rightarrow> d | None \<Rightarrow> adapter_defaults validation)"

definition sv_jsonSchema :: "validationAdapter \<Rightarrow> superValidateOptions \<Rightarrow> jsonSchema" where
  "sv_jsonSchema validation options =
     (case opt_jsonSchema options of Some j \<Rightarrow> j | None \<Rightarrow> adapter_jsonSchema validation)"

text \<open>\<open>options?.errors ?? (options?.strict ? true : !!data)\<close>.\<close>

definition sv_addErrors :: "'s option \<Rightarrow> superValidateOptions \<Rightarrow> bool" where
  "sv_addErrors data options =
     (case opt_errors options of
        Some e \<Rightarrow> e
      | None \<Rightarrow> (if opt_strict options = Some True then True else data \<noteq> None))"

text \<open>The merge step:
  \<open>parsed.data = { ...(options?.strict ? {} : defaults), ...(parsed.data ?? {}) }\<close>.\<close>

definition sv_merged :: "jsobject \<Rightarrow> superValidateOptions \<Rightarrow> parsedData \<Rightarrow> jsobject" where
  "sv_merged defaults options parsed =
     spread (if opt_strict options = Some True then [] else defaults)
            (case parsed_data parsed of Some d \<Rightarrow> d | None \<Rightarrow> [])"

text \<open>\<open>status\<close>: the validator runs when \<open>hasData || addErrors\<close>; otherwise the result is
  \<open>{success: false, issues: []}\<close>.\<close>

definition run_validator :: "validationAdapter \<Rightarrow> jsobject \<Rightarrow> validationResult" where
  "run_validator validation merged =
     (case adapter_customValidator validation of
        Some customValidator \<Rightarrow> customValidator merged
      | None \<Rightarrow> adapter_validator validation merged)"

definition sv_status :: "validationAdapter \<Rightarrow> bool \<Rightarrow> bool \<Rightarrow> jsobject \<Rightarrow> validationResult" where
  "sv_status validation hasData addErrors merged =
     (if hasData \<or> addErrors then run_validator validation merged else Failure [])"

fun success :: "validationResult \<Rightarrow> bool" where
  "success (Success d) = True"
| "success (Failure issues) = False"

text \<open>\<open>const finalData = valid ? status.data : parsed.data\<close>.\<close>

fun sv_finalData :: "validationResult \<Rightarrow> jsobject \<Rightarrow> jsobject" where
  "sv_finalData (Success d) merged = d"
| "sv_finalData (Failure issues) merged = merged"

text \<open>\<open>valid || !addErrors ? {} : mapErrors(status.issues, validation.objects)\<close>.\<close>

fun sv_errors :: "'s externals \<Rightarrow> validationAdapter \<Rightarrow> bool \<Rightarrow> validationResult \<Rightarrow> errobject" where
  "sv_errors ext validation addErrors (Success d) = []"
| "sv_errors ext validation addErrors (Failure issues) =
     (if \<not> addErrors then [] else mapErrors ext issues (adapter_objects validation))"

text \<open>The loop that strips the keys not belonging to the schema: over the keys of
  \<open>jsonSchema.properties\<close>, building \<open>outputData\<close> from \<open>{}\<close>.\<close>

fun strip_keys :: "string list \<Rightarrow> jsobject \<Rightarrow> jsobject \<Rightarrow> jsobject \<Rightarrow> jsobject" where
  "strip_keys [] finalData defaults outputData = outputData"
| "strip_keys (key # keys) finalData defaults outputData =
     strip_keys keys finalData defaults
       (if has_key finalData key then assign_prop key (get_prop finalData key) outputData
        else if get_prop defaults key \<noteq> JUndefined
        then assign_prop key (get_prop defaults key) outputData
        else outputData)"

text \<open>The loop of the other branch, over the keys of \<open>defaults\<close>. There \<open>outputData\<close> is
  \<open>finalData\<close> itself (one object under two names), so the loop carries one object.\<close>

fun fill_defaults :: "string list \<Rightarrow> jsobject \<Rightarrow> jsobject \<Rightarrow> jsobject" where
  "fill_defaults [] defaults finalData = finalData"
| "fill_defaults (key # keys) defaults finalData =
     fill_defaults keys defaults
       (if \<not> has_key finalData key \<and> get_prop defaults key \<noteq> JUndefined
        then assign_prop key (get_prop defaults key) finalData
        else finalData)"

definition declared_keys :: "jsonSchema \<Rightarrow> string list" where
  "declared_keys schema = object_keys (case properties schema of Some p \<Rightarrow> p | None \<Rightarrow> [])"

definition sv_outputData :: "jsonSchema \<Rightarrow> jsobject \<Rightarrow> jsobject \<Rightarrow> jsobject" where
  "sv_outputData schema defaults finalData =
     (if \<not> truthy (additionalProperties schema)
      then strip_keys (declared_keys schema) finalData defaults []
      else fill_defaults (object_keys defaults) defaults finalData)"

text \<open>\<open>parsed.id ?? options?.id ?? (parsed.posted ? undefined : formId())\<close>.\<close>

definition sv_id :: "'s externals \<Rightarrow> parsedData \<Rightarrow> superValidateOptions \<Rightarrow> string option" where
  "sv_id ext parsed options =
     (case parsed_id parsed of
        Some i \<Rightarrow> Some i
      | None \<Rightarrow>
          (case opt_id options of
             Some i \<Rightarrow> Some i
           | None \<Rightarrow> (if parsed_posted parsed then None else Some (formId ext))))"

text \<open>
  \<open>superValidate(data, adapter, options)\<close>. The adapter is taken as \<open>mapAdapter\<close> returns it.
  The awaited calls run one after the other, so the function is their composition.
\<close>

definition superValidate ::
  "'s externals \<Rightarrow> 's option \<Rightarrow> validationAdapter \<Rightarrow> superValidateOptions \<Rightarrow> 'm superValidated" where
  "superValidate ext data validation options =
     (let defaults = sv_defaults validation options;
          schema = sv_jsonSchema validation options;
          addErrors = sv_addErrors data options;
          parsed = parseRequest ext data schema options;
          hasData = (parsed_data parsed \<noteq> None);
          merged = sv_merged defaults options parsed;
          status = sv_status validation hasData addErrors merged;
          valid = success status;
          errors = sv_errors ext validation addErrors status;
          finalData = sv_finalData status merged;
          outputData = sv_outputData schema defaults finalData
      in \<lparr> form_id = sv_id ext parsed options,
           form_valid = valid,
           form_posted = parsed_posted parsed,
           form_errors = Some errors,
           form_data = outputData,
           form_constraints = adapter_constraints validation,
           form_message = None \<rparr>)"

text \<open>The first overload, \<open>superValidate(adapter, options)\<close>: the implementation moves the
  arguments and sets \<open>data = undefined\<close>.\<close>

definition superValidate_adapter ::
  "'s externals \<Rightarrow> validationAdapter \<Rightarrow> superValidateOptions \<Rightarrow> 'm superValidated" where
  "superValidate_adapter ext validation options = superValidate ext None validation options"

section \<open>message\<close>

text \<open>
  What a call hands back besides the form: \<open>fail(status, {form})\<close> is \<open>ActionFailure status\<close>,
  the bare \<open>{form}\<close> is \<open>Plain\<close>. Both wrap the form object that the call has mutated; the
  functions below return it as their second component. The status is the number the
  caller passes: the type \<open>NumericRange<400, 599>\<close> bounds it for the compiler only.
\<close>

datatype response =
    ActionFailure int
  | Plain

record messageOptions =
  message_status :: "int option"

definition message ::
  "'m superValidated \<Rightarrow> 'm \<Rightarrow> messageOptions option \<Rightarrow> response \<times> 'm superValidated" where
  "message form msg options =
     (let status = (case options of None \<Rightarrow> None | Some opts \<Rightarrow> message_status opts);
          form1 = (if (case status of None \<Rightarrow> False | Some s \<Rightarrow> s \<noteq> 0 \<and> 400 \<le> s)
                   then form\<lparr>form_valid := False\<rparr> else form);
          form2 = form1\<lparr>form_message := Some msg\<rparr>
      in (if \<not> form_valid form2
          then ActionFailure (case status of None \<Rightarrow> 400 | Some s \<Rightarrow> s)
          else Plain,
          form2))"

definition setMessage ::
  "'m superValidated \<Rightarrow> 'm \<Rightarrow> messageOptions option \<Rightarrow> response \<times> 'm superValidated" where
  "setMessage = message"

section \<open>setError\<close>

text \<open>
  What a call can throw: the error of \<open>splitPath\<close>, and the \<open>TypeError\<close> of calling
  \<open>concat\<close> on a value that is no array or of writing a member of a string.
\<close>

datatype error =
    MalformedPathError
  | TypeError

text \<open>The triple \<open>{parent, key, value}\<close> of a traversal. The parent is a reference into
  the tree: the model holds the keys that lead from the root to it.\<close>

record pathData =
  leaf_parent :: "string list"
  leaf_key :: string
  leaf_value :: "errs option"

text \<open>
  Modelled from the spec: \<open>traversePath\<close> (traversal.js is not among the sources), after
  section 4.1. The walk follows the path from the root. At an intermediate segment whose
  value is undefined it calls the hook with \<open>(parent, key, value)\<close>; the hook may attach
  a container at \<open>parent[key]\<close>, which the walk then enters, and when nothing is attached
  the result is \<open>undefined\<close> (\<open>None\<close>). At the final segment it returns the triple. A path
  with no segment has no final segment and yields \<open>undefined\<close>. The first component of
  the result is the root after the hook's writes.

  Where an intermediate value is an array of messages, the walk leaves the error tree:
  JavaScript goes on into the array, and the caller's write lands on a member of the
  array or of one of its strings. Neither the spec nor the sources say more, so what
  happens there is the parameter \<open>offTree\<close>, given the array's messages and the
  segments still to walk: the exception thrown, or \<open>None\<close> when the call goes through.
  What such a call attaches inside the array is no part of an error tree and is not
  recorded: the tree stays as it was, and the result carries no triple.
\<close>

fun traversePath ::
  "(string list \<Rightarrow> string list \<Rightarrow> error option) \<Rightarrow> errobject \<Rightarrow> string list
     \<Rightarrow> (errobject \<Rightarrow> string \<Rightarrow> errs option \<Rightarrow> errobject)
     \<Rightarrow> error + (errobject \<times> pathData option)" where
  "traversePath offTree parent [] modifier = Inr (parent, None)"
| "traversePath offTree parent [key] modifier =
     Inr (parent, Some \<lparr>leaf_parent = [], leaf_key = key, leaf_value = map_of parent key\<rparr>)"
| "traversePath offTree parent (key # next # rest) modifier =
     (let parent' = (case map_of parent key of
                       None \<Rightarrow> modifier parent key None
                     | Some v \<Rightarrow> parent)
      in case map_of parent' key of
           None \<Rightarrow> Inr (parent', None)
         | Some (ErrArray msgs) \<Rightarrow>
             (case offTree msgs (next # rest) of
                Some e \<Rightarrow> Inl e
              | None \<Rightarrow> Inr (parent', None))
         | Some (ErrObject child) \<Rightarrow>
             (case traversePath offTree child (next # rest) modifier of
                Inl e \<Rightarrow> Inl e
              | Inr (child', leaf) \<Rightarrow>
                  Inr (set_prop key (ErrObject child') parent',
                       map_option (\<lambda>l. l\<lparr>leaf_parent := key # leaf_parent l\<rparr>) leaf)))"

text \<open>\<open>leaf.parent[leaf.key] = v\<close>: the write through the triple, at the parent's place in
  the tree. The keys of a triple that \<open>traversePath\<close> returned lead through objects.\<close>

fun assign_at :: "errobject \<Rightarrow> string list \<Rightarrow> string \<Rightarrow> errs \<Rightarrow> errobject" where
  "assign_at root [] key v = set_prop key v root"
| "assign_at root (p # ps) key v =
     (case map_of root p of
        Some (ErrObject child) \<Rightarrow> set_prop p (ErrObject (assign_at child ps key v)) root
      | Some (ErrArray msgs) \<Rightarrow> root
      | None \<Rightarrow> root)"

text \<open>Reading \<open>errors.a.b\<close>: a named member of an object; an array of messages has no
  named member.\<close>

fun read_path :: "errobject \<Rightarrow> string list \<Rightarrow> errs option" where
  "read_path root [] = Some (ErrObject root)"
| "read_path root [key] = map_of root key"
| "read_path root (key # next # rest) =
     (case map_of root key of
        Some (ErrObject child) \<Rightarrow> read_path child (next # rest)
      | Some (ErrArray msgs) \<Rightarrow> None
      | None \<Rightarrow> None)"

text \<open>\<open>error: string | string[]\<close>, and \<open>SetErrorOptions\<close>.\<close>

datatype errorArg =
    One string
  | Many "string list"

record setErrorOptions =
  overwrite :: "bool option"
  status :: "int option"

text \<open>The two declared overloads of \<open>setError\<close>: \<open>(form, error, options?)\<close> and
  \<open>(form, path, error, options?)\<close>.\<close>

datatype setErrorCall =
    FormLevel errorArg "setErrorOptions option"
  | AtPath string errorArg "setErrorOptions option"

text \<open>"Unify signatures": a call of the first overload gets the path \<open>''\<close>.\<close>

fun unify :: "setErrorCall \<Rightarrow> string \<times> errorArg \<times> setErrorOptions option" where
  "unify (FormLevel err options) = ([], err, options)"
| "unify (AtPath path err options) = (path, err, options)"

fun errArr_of :: "errorArg \<Rightarrow> string list" where
  "errArr_of (One e) = [e]"
| "errArr_of (Many es) = es"

text \<open>The hook that \<open>setError\<close> passes:
  \<open>if (value === undefined) parent[key] = {}; return parent[key]\<close>.\<close>

definition create_missing :: "errobject \<Rightarrow> string \<Rightarrow> errs option \<Rightarrow> errobject" where
  "create_missing parent key v = (if v = None then set_prop key (ErrObject []) parent else parent)"

text \<open>The branch for the path \<open>''\<close>: \<open>form.errors._errors\<close>. An array (the empty one too)
  and an object are truthy; \<open>concat\<close> exists on arrays only. (After the first statement
  \<open>_errors\<close> is set, so the last case below does not arise.)\<close>

definition set_form_errors :: "errobject \<Rightarrow> string list \<Rightarrow> bool \<Rightarrow> error + errobject" where
  "set_form_errors errors errArr ow =
     (let errors1 = (if map_of errors ''_errors'' = None
                     then set_prop ''_errors'' (ErrArray []) errors else errors)
      in if ow then Inr (set_prop ''_errors'' (ErrArray errArr) errors1)
         else (case map_of errors1 ''_errors'' of
                 Some (ErrArray old) \<Rightarrow> Inr (set_prop ''_errors'' (ErrArray (old @ errArr)) errors1)
               | Some (ErrObject ps) \<Rightarrow> Inl TypeError
               | None \<Rightarrow> Inl TypeError))"

text \<open>The other branch: \<open>splitPath\<close>, \<open>traversePath\<close>, and the write through the leaf.
  \<open>splitPath\<close> (stringPath.js is not among the sources) is a parameter; section 4.1 of the
  spec lets it fail on a malformed path.\<close>

definition set_field_errors ::
  "(string \<Rightarrow> error + string list) \<Rightarrow> (string list \<Rightarrow> string list \<Rightarrow> error option)
     \<Rightarrow> errobject \<Rightarrow> string \<Rightarrow> string list \<Rightarrow> bool \<Rightarrow> error + errobject" where
  "set_field_errors splitPath offTree errors path errArr ow =
     (case splitPath path of
        Inl e \<Rightarrow> Inl e
      | Inr realPath \<Rightarrow>
          (case traversePath offTree errors realPath create_missing of
             Inl e \<Rightarrow> Inl e
           | Inr (errors', None) \<Rightarrow> Inr errors'
           | Inr (errors', Some leaf) \<Rightarrow>
               Inr (assign_at errors' (leaf_parent leaf) (leaf_key leaf)
                      (ErrArray (case leaf_value leaf of
                                   Some (ErrArray old) \<Rightarrow> if \<not> ow then old @ errArr else errArr
                                 | Some (ErrObject ps) \<Rightarrow> errArr
                                 | None \<Rightarrow> errArr)))))"

text \<open>\<open>if (!form.errors) form.errors = {}\<close>: the error tree that the rest of the call works
  on.\<close>

definition errors_or_empty :: "'m superValidated \<Rightarrow> errobject" where
  "errors_or_empty form = (case form_errors form of None \<Rightarrow> [] | Some e \<Rightarrow> e)"

text \<open>
  \<open>setError\<close>. The result is what the call yields (the exception, or
  \<open>fail(options.status ?? 400, {form})\<close>) and the form after the call. An exception leaves
  the form as the statements before it made it: \<open>form.errors\<close> set to \<open>{}\<close> if it was
  missing, and nothing else.
\<close>

definition setError ::
  "(string \<Rightarrow> error + string list) \<Rightarrow> (string list \<Rightarrow> string list \<Rightarrow> error option)
     \<Rightarrow> 'm superValidated \<Rightarrow> setErrorCall \<Rightarrow> (error + response) \<times> 'm superValidated" where
  "setError splitPath offTree form call =
     (case unify call of
        (path, err, options0) \<Rightarrow>
          (let options = (case options0 of
                            None \<Rightarrow> \<lparr>overwrite = None, status = None\<rparr>
                          | Some opts \<Rightarrow> opts);
               errArr = errArr_of err;
               errors0 = errors_or_empty form;
               form1 = form\<lparr>form_errors := Some errors0\<rparr>;
               ow = (overwrite options = Some True)
           in case (if path = [] then set_form_errors errors0 errArr ow
                    else set_field_errors splitPath offTree errors0 path errArr ow) of
                Inl e \<Rightarrow> (Inl e, form1)
              | Inr errors' \<Rightarrow>
                  (Inr (ActionFailure (case status options of None \<Rightarrow> 400 | Some s \<Rightarrow> s)),
                   form1\<lparr>form_errors := Some errors', form_valid := False\<rparr>)))"

text \<open>\<open>form.errors.a.b\<close>, read off a form.\<close>

definition errors_at :: "'m superValidated \<Rightarrow> string list \<Rightarrow> errs option" where
  "errors_at form path = (case form_errors form of None \<Rightarrow> None | Some e \<Rightarrow> read_path e path)"

text \<open>Two conditions on an error tree. \<open>own_errors_typed\<close>: \<open>_errors\<close>, when present, is
  an array, as the type \<open>_errors?: string[]\<close> says. \<open>enters_array\<close>: the path runs into
  an array of messages before its final segment, where the walk leaves the error tree.\<close>

definition own_errors_typed :: "errobject \<Rightarrow> bool" where
  "own_errors_typed errors =
     (case map_of errors ''_errors'' of
        Some (ErrObject ps) \<Rightarrow> False
      | Some (ErrArray msgs) \<Rightarrow> True
      | None \<Rightarrow> True)"

fun enters_array :: "errobject \<Rightarrow> string list \<Rightarrow> bool" where
  "enters_array root [] = False"
| "enters_array root [key] = False"
| "enters_array root (key # next # rest) =
     (case map_of root key of
        Some (ErrObject child) \<Rightarrow> enters_array child (next # rest)
      | Some (ErrArray msgs) \<Rightarrow> True
      | None \<Rightarrow> False)"

text \<open>For stating what a call does: whether the options ask to overwrite, the status of
  the failure response, and the messages an entry of the tree holds (none when the
  entry is missing or is no array).\<close>

definition overwrites :: "setErrorOptions option \<Rightarrow> bool" where
  "overwrites options = (case options of None \<Rightarrow> False | Some opts \<Rightarrow> overwrite opts = Some True)"

definition status_or_400 :: "setErrorOptions option \<Rightarrow> int" where
  "status_or_400 options =
     (case options of
        None \<Rightarrow> 400
      | Some opts \<Rightarrow> (case status opts of None \<Rightarrow> 400 | Some s \<Rightarrow> s))"

definition messages_of :: "errs option \<Rightarrow> string list" where
  "messages_of entry =
     (case entry of
        Some (ErrArray msgs) \<Rightarrow> msgs
      | Some (ErrObject ps) \<Rightarrow> []
      | None \<Rightarrow> [])"

section \<open>The stages of superValidate, as functions of its arguments\<close>

text \<open>The locals \<open>parsed\<close>, \<open>parsed.data\<close> after the merge, \<open>status\<close> and \<open>finalData\<close> of a
  call, named so that properties can speak of them.\<close>

definition sv_parsed ::
  "'s externals \<Rightarrow> 's option \<Rightarrow> validationAdapter \<Rightarrow> superValidateOptions \<Rightarrow> parsedData" where
  "sv_parsed ext data validation options =
     parseRequest ext data (sv_jsonSchema validation options) options"

definition sv_record ::
  "'s externals \<Rightarrow> 's option \<Rightarrow> validationAdapter \<Rightarrow> superValidateOptions \<Rightarrow> jsobject" where
  "sv_record ext data validation options =
     sv_merged (sv_defaults validation options) options (sv_parsed ext data validation options)"

definition sv_result ::
  "'s externals \<Rightarrow> 's option \<Rightarrow> validationAdapter \<Rightarrow> superValidateOptions \<Rightarrow> validationResult" where
  "sv_result ext data validation options =
     sv_status validation (parsed_data (sv_parsed ext data validation options) \<noteq> None)
       (sv_addErrors data options) (sv_record ext data validation options)"

definition sv_final ::
  "'s externals \<Rightarrow> 's option \<Rightarrow> validationAdapter \<Rightarrow> superValidateOptions \<Rightarrow> jsobject" where
  "sv_final ext data validation options =
     sv_finalData (sv_result ext data validation options) (sv_record ext data validation options)"

section \<open>Worked inputs\<close>

text \<open>
  The schema of \<open>routes/(v2)/v2/schemasafe-types/schema.ts\<close>, an adapter for it, and stand-ins
  for the imported functions on two kinds of source: a posted form (with the identifier
  it carries, if any) and an in-memory partial object. The stand-in for \<open>parseRequest\<close>
  follows section 4.2 of the spec; the validator checks what the schema asks for.
\<close>

datatype source =
    Posted "string option" jsobject
  | Partial jsobject

definition parseRequest_example ::
  "source option \<Rightarrow> jsonSchema \<Rightarrow> superValidateOptions \<Rightarrow> parsedData" where
  "parseRequest_example data schema options =
     (case data of
        None \<Rightarrow> \<lparr>parsed_id = None, parsed_data = None, parsed_posted = False\<rparr>
      | Some (Posted i d) \<Rightarrow> \<lparr>parsed_id = i, parsed_data = Some d, parsed_posted = True\<rparr>
      | Some (Partial d) \<Rightarrow> \<lparr>parsed_id = None, parsed_data = Some d, parsed_posted = False\<rparr>)"

definition mapErrors_example :: "issue list \<Rightarrow> string list list \<Rightarrow> errobject" where
  "mapErrors_example issues objects =
     map (\<lambda>i. (case issue_path i of [] \<Rightarrow> ''_errors'' | k # ks \<Rightarrow> k, ErrArray [issue_message i]))
       issues"

definition externals_example :: "source externals" where
  "externals_example =
     \<lparr>parseRequest = parseRequest_example, mapErrors = mapErrors_example, formId = ''k3x9ab''\<rparr>"

definition schema_example :: jsonSchema where
  "schema_example =
     \<lparr>properties = Some
        [(''name'', JObject [(''type'', JString ''string''), (''default'', JString ''Hello world!'')]),
         (''email'', JObject [(''type'', JString ''string''), (''format'', JString ''email'')])],
      additionalProperties = JBool False\<rparr>"

definition validate_example :: "jsobject \<Rightarrow> validationResult" where
  "validate_example d =
     (if filter (\<lambda>k. k \<noteq> ''name'' \<and> k \<noteq> ''email'') (object_keys d) \<noteq> []
      then Failure [\<lparr>issue_path = [], issue_message = ''additionalProperties''\<rparr>]
      else (case map_of d ''email'' of
              Some (JString s) \<Rightarrow>
                if CHR ''@'' \<in> set s then Success d
                else Failure [\<lparr>issue_path = [''email''], issue_message = ''format''\<rparr>]
            | Some v \<Rightarrow> Failure [\<lparr>issue_path = [''email''], issue_message = ''type''\<rparr>]
            | None \<Rightarrow> Failure [\<lparr>issue_path = [], issue_message = ''required''\<rparr>]))"

definition adapter_example :: validationAdapter where
  "adapter_example =
     \<lparr>adapter_defaults = [(''name'', JString ''Hello world!''), (''email'', JString [])],
      adapter_jsonSchema = schema_example,
      adapter_constraints = JObject [(''email'', JObject [(''required'', JBool True)])],
      adapter_validator = validate_example,
      adapter_customValidator = None,
      adapter_objects = []\<rparr>"

definition no_options :: superValidateOptions where
  "no_options =
     \<lparr>opt_errors = None, opt_id = None, opt_preprocessed = None, opt_defaults = None,
      opt_jsonSchema = None, opt_strict = None\<rparr>"

text \<open>A form as \<open>superValidate\<close> returns it for a valid post, and the same form found
  invalid.\<close>

definition form_example :: "string superValidated" where
  "form_example =
     \<lparr>form_id = Some ''k3x9ab'', form_valid = True, form_posted = True, form_errors = Some [],
      form_data = [(''name'', JString ''Ada''), (''email'', JString ''ada@example.org'')],
      form_constraints = JObject [(''email'', JObject [(''required'', JBool True)])],
      form_message = None\<rparr>"

definition invalid_form_example :: "string superValidated" where
  "invalid_form_example = form_example\<lparr>form_valid := False\<rparr>"


text \<open>A stand-in for \<open>splitPath\<close> on dotted paths: the segments between the dots, and a
  failure when one of them is empty.\<close>

fun split_dots :: "string \<Rightarrow> string list" where
  "split_dots [] = [[]]"
| "split_dots (c # cs) =
     (if c = CHR ''.'' then [] # split_dots cs
      else (case split_dots cs of
              [] \<Rightarrow> [[c]]
            | seg # segs \<Rightarrow> (c # seg) # segs))"

definition splitPath_example :: "string \<Rightarrow> error + string list" where
  "splitPath_example path =
     (if [] \<in> set (split_dots path) then Inl MalformedPathError else Inr (split_dots path))"

text \<open>Sources: a post that carries a form identifier, a post without one, an in-memory
  object, and the post of the spec's scenario with one key the schema does not declare.\<close>

definition post_with_id :: "source option" where
  "post_with_id = Some (Posted (Some ''fromPost'') [(''email'', JString ''ada@example.org'')])"

definition post_without_id :: "source option" where
  "post_without_id = Some (Posted None [(''email'', JString ''ada@example.org'')])"

definition partial_object :: "source option" where
  "partial_object = Some (Partial [(''email'', JString ''ada@example.org'')])"

definition post_with_extra_key :: "source option" where
  "post_with_extra_key =
     Some (Posted None
       [(''name'', JString []), (''email'', JString ''not-an-email''), (''foo'', JString ''bar'')])"

definition post_invalid :: "source option" where
  "post_invalid = Some (Posted None [(''name'', JString []), (''email'', JString ''not-an-email'')])"

text \<open>A form that already holds messages for the field \<open>x\<close>.\<close>

definition form_with_errors_example :: "string superValidated" where
  "form_with_errors_example =
     invalid_form_example\<lparr>form_errors := Some [(''x'', ErrArray [''old''])]\<rparr>"


text \<open>The schema above with one more declared property, named \<open>constructor\<close>; defaults
  given by the caller; and an \<open>offTree\<close> under which no call throws.\<close>

definition schema_with_constructor_example :: jsonSchema where
  "schema_with_constructor_example =
     \<lparr>properties = Some
        [(''name'', JObject [(''type'', JString ''string''), (''default'', JString ''Hello world!'')]),
         (''email'', JObject [(''type'', JString ''string''), (''format'', JString ''email'')]),
         (''constructor'', JObject [(''type'', JString ''string'')])],
      additionalProperties = JBool False\<rparr>"

definition options_with_defaults_example :: superValidateOptions where
  "options_with_defaults_example =
     no_options\<lparr>opt_defaults := Some [(''name'', JString ''Grace''), (''email'', JString [])]\<rparr>"

definition goes_through :: "string list \<Rightarrow> string list \<Rightarrow> error option" where
  "goes_through msgs segs = None"

section \<open>Facts about objects and the two loops\<close>

lemma map_of_set_prop: "map_of (set_prop key v obj) = (map_of obj)(key \<mapsto> v)"
  by (simp add: set_prop_def update_conv')

lemma map_of_assign_prop:
  "map_of (assign_prop key v obj) =
     (if key = ''__proto__'' \<and> map_of obj key = None then map_of obj else (map_of obj)(key \<mapsto> v))"
  by (auto simp: assign_prop_def update_conv')

lemma map_of_spread: "map_of (spread a b) = map_of a ++ map_of b"
  by (simp add: spread_def merge_conv')

lemma map_of_strip_keys:
  assumes "map_of outputData ''__proto__'' = None"
  shows "map_of (strip_keys keys finalData defaults outputData) key =
     (if key = ''__proto__'' then None
      else if key \<in> set keys \<and> has_key finalData key then Some (get_prop finalData key)
      else if key \<in> set keys \<and> get_prop defaults key \<noteq> JUndefined
      then Some (get_prop defaults key)
      else map_of outputData key)"
  using assms
proof (induction keys arbitrary: outputData)
  case Nil
  then show ?case by auto
next
  case (Cons k keys)
  have inv: "map_of (assign_prop k v outputData) ''__proto__'' = None" for v
    using Cons.prems by (simp add: map_of_assign_prop)
  show ?case
    using Cons.prems Cons.IH [OF inv] Cons.IH [OF Cons.prems]
    by (auto simp: map_of_assign_prop)
qed

lemma has_key_own: "inherited key = None \<Longrightarrow> has_key obj key \<longleftrightarrow> map_of obj key \<noteq> None"
  by (simp add: has_key_def)

lemma get_prop_own:
  "inherited key = None \<Longrightarrow>
   get_prop obj key = (case map_of obj key of Some v \<Rightarrow> v | None \<Rightarrow> JUndefined)"
  by (simp add: get_prop_def split: option.splits)

lemma has_key_object_keys: "key \<in> set (object_keys obj) \<Longrightarrow> has_key obj key"
  by (auto simp: has_key_def object_keys_def map_of_eq_None_iff)

lemma fill_defaults_same:
  "set keys \<subseteq> set (object_keys finalData) \<Longrightarrow> fill_defaults keys defaults finalData = finalData"
  by (induction keys arbitrary: finalData) (auto simp: has_key_object_keys)

lemma superValidate_stages:
  "form_id (superValidate ext data validation options) =
     sv_id ext (sv_parsed ext data validation options) options"
  "form_valid (superValidate ext data validation options) =
     success (sv_result ext data validation options)"
  "form_posted (superValidate ext data validation options) =
     parsed_posted (sv_parsed ext data validation options)"
  "form_errors (superValidate ext data validation options) =
     Some (sv_errors ext validation (sv_addErrors data options)
             (sv_result ext data validation options))"
  "form_data (superValidate ext data validation options) =
     sv_outputData (sv_jsonSchema validation options) (sv_defaults validation options)
       (sv_final ext data validation options)"
  "form_constraints (superValidate ext data validation options) = adapter_constraints validation"
  by (simp_all add: superValidate_def Let_def sv_parsed_def sv_record_def sv_result_def
        sv_final_def)

lemma map_of_stripped_data:
  assumes "\<not> truthy (additionalProperties (sv_jsonSchema validation options))"
  shows "map_of (form_data (superValidate ext data validation options)) key =
     (if key = ''__proto__'' then None
      else if key \<in> set (declared_keys (sv_jsonSchema validation options)) \<and>
         has_key (sv_final ext data validation options) key
      then Some (get_prop (sv_final ext data validation options) key)
      else if key \<in> set (declared_keys (sv_jsonSchema validation options)) \<and>
              get_prop (sv_defaults validation options) key \<noteq> JUndefined
      then Some (get_prop (sv_defaults validation options) key)
      else None)"
  using assms by (simp add: superValidate_stages(5) sv_outputData_def map_of_strip_keys)

text \<open>The worked inputs, evaluated.\<close>

lemmas example_defs =
  sv_parsed_def sv_jsonSchema_def sv_defaults_def sv_record_def sv_result_def sv_final_def
  sv_merged_def sv_status_def sv_addErrors_def externals_example_def parseRequest_example_def
  adapter_example_def no_options_def schema_example_def validate_example_def object_keys_def
  spread_def declared_keys_def

section \<open>The id of the returned form\<close>

text \<open>
  C1, as the code has it. The id of the form that \<open>superValidate\<close> returns is the id parsed
  from the input when there is one; otherwise the caller's \<open>options.id\<close> when there is
  one; otherwise a freshly generated identifier when the input was not a posted request,
  and \<open>undefined\<close> when it was. (The spec puts \<open>options.id\<close> before the parsed id; the code
  reads \<open>parsed.id ?? options?.id ?? \<dots>\<close>.)
\<close>

theorem superValidate_id_priority:
  "(parsed_id (sv_parsed ext data validation options) = Some i \<longrightarrow>
      form_id (superValidate ext data validation options) = Some i) \<and>
   (parsed_id (sv_parsed ext data validation options) = None \<and> opt_id options = Some j \<longrightarrow>
      form_id (superValidate ext data validation options) = Some j) \<and>
   (parsed_id (sv_parsed ext data validation options) = None \<and> opt_id options = None \<and>
    \<not> parsed_posted (sv_parsed ext data validation options) \<longrightarrow>
      form_id (superValidate ext data validation options) = Some (formId ext)) \<and>
   (parsed_id (sv_parsed ext data validation options) = None \<and> opt_id options = None \<and>
    parsed_posted (sv_parsed ext data validation options) \<longrightarrow>
      form_id (superValidate ext data validation options) = None)"
  by (simp add: superValidate_stages(1) sv_id_def)

theorem superValidate_id_priority_witness:
  "parsed_id (sv_parsed externals_example post_with_id adapter_example
                (no_options\<lparr>opt_id := Some ''explicit''\<rparr>)) = Some ''fromPost'' \<and>
   form_id (superValidate externals_example post_with_id adapter_example
              (no_options\<lparr>opt_id := Some ''explicit''\<rparr>) :: string superValidated)
     = Some ''fromPost'' \<and>
   parsed_id (sv_parsed externals_example post_without_id adapter_example
                (no_options\<lparr>opt_id := Some ''explicit''\<rparr>)) = None \<and>
   opt_id (no_options\<lparr>opt_id := Some ''explicit''\<rparr>) = Some ''explicit'' \<and>
   form_id (superValidate externals_example post_without_id adapter_example
              (no_options\<lparr>opt_id := Some ''explicit''\<rparr>) :: string superValidated)
     = Some ''explicit'' \<and>
   parsed_id (sv_parsed externals_example partial_object adapter_example no_options) = None \<and>
   opt_id no_options = None \<and>
   \<not> parsed_posted (sv_parsed externals_example partial_object adapter_example no_options) \<and>
   form_id (superValidate externals_example partial_object adapter_example no_options
              :: string superValidated)
     = Some (formId externals_example) \<and>
   parsed_id (sv_parsed externals_example post_without_id adapter_example no_options) = None \<and>
   parsed_posted (sv_parsed externals_example post_without_id adapter_example no_options) \<and>
   form_id (superValidate externals_example post_without_id adapter_example no_options
              :: string superValidated)
     = None"
proof -
  let ?explicit = "no_options\<lparr>opt_id := Some ''explicit''\<rparr>"
  have parsed:
    "parsed_id (sv_parsed externals_example post_with_id adapter_example ?explicit)
       = Some ''fromPost''"
    "parsed_id (sv_parsed externals_example post_without_id adapter_example ?explicit) = None"
    "parsed_id (sv_parsed externals_example partial_object adapter_example no_options) = None"
    "\<not> parsed_posted (sv_parsed externals_example partial_object adapter_example no_options)"
    "parsed_id (sv_parsed externals_example post_without_id adapter_example no_options) = None"
    "parsed_posted (sv_parsed externals_example post_without_id adapter_example no_options)"
    by (simp_all add: example_defs post_with_id_def post_without_id_def partial_object_def)
  have opts: "opt_id ?explicit = Some ''explicit''" "opt_id no_options = None"
    by (simp_all add: no_options_def)
  show ?thesis
    using
      superValidate_id_priority [of externals_example post_with_id adapter_example ?explicit
        "''fromPost''" "''explicit''"]
      superValidate_id_priority [of externals_example post_without_id adapter_example ?explicit
        "''fromPost''" "''explicit''"]
      superValidate_id_priority [of externals_example partial_object adapter_example no_options
        "''fromPost''" "''explicit''"]
      superValidate_id_priority [of externals_example post_without_id adapter_example no_options
        "''fromPost''" "''explicit''"]
    by (simp add: parsed opts)
qed

text \<open>A post that carries the id \<open>fromPost\<close>, validated with \<open>options.id = 'explicit'\<close>: the
  form gets the id of the post, not the caller's.\<close>

theorem superValidate_explicit_id_counterexample:
  "opt_id (no_options\<lparr>opt_id := Some ''explicit''\<rparr>) = Some ''explicit'' \<and>
   form_id (superValidate externals_example post_with_id adapter_example
              (no_options\<lparr>opt_id := Some ''explicit''\<rparr>) :: string superValidated)
     = Some ''fromPost''"
  by (simp add: superValidate_stages(1) sv_id_def example_defs post_with_id_def)

section \<open>message and a status below 400\<close>

text \<open>
  C2, as the code has it. \<open>message\<close> rejects no status at run time (the range 400 to 599
  is the type of the parameter, checked by the compiler only). Called with a status
  below 400, it leaves \<open>valid\<close> as it was, attaches the message, and returns the bare
  \<open>{form}\<close> when the form is valid and a failure response carrying that very status when
  the form is already invalid.
\<close>

theorem message_status_below_400:
  "s < 400 \<Longrightarrow>
   message form msg (Some \<lparr>message_status = Some s\<rparr>) =
     (if form_valid form then Plain else ActionFailure s, form\<lparr>form_message := Some msg\<rparr>)"
  by (simp add: message_def Let_def)

theorem message_status_below_400_witness:
  "(201::int) < 400 \<and>
   message form_example ''ok'' (Some \<lparr>message_status = Some 201\<rparr>) =
     (Plain, form_example\<lparr>form_message := Some ''ok''\<rparr>)"
proof -
  have h: "(201::int) < 400" by simp
  have v: "form_valid form_example" by (simp add: form_example_def)
  show ?thesis
    using h v message_status_below_400 [OF h, of form_example "''ok''"] by simp
qed

text \<open>\<open>message(form, 'x', {status: 399})\<close> on a form that is already invalid returns
  \<open>fail(399, {form})\<close>.\<close>

theorem message_status_399_counterexample:
  "message invalid_form_example ''x'' (Some \<lparr>message_status = Some 399\<rparr>) =
     (ActionFailure 399, invalid_form_example\<lparr>form_message := Some ''x''\<rparr>)"
  by (simp add: message_def Let_def invalid_form_example_def)

section \<open>Keys the schema does not declare\<close>

text \<open>Under the stripping branch an undeclared key is no own key of the returned data,
  and a declared key that is no name of an inherited member is filled from \<open>finalData\<close>
  (the validator's data when it succeeded, the merged record otherwise) when it is an
  own key there, else from the defaults when the default is not \<open>undefined\<close>, and is
  absent otherwise.\<close>

lemma superValidate_fill_rule:
  assumes "\<not> truthy (additionalProperties (sv_jsonSchema validation options))"
  shows "(key \<notin> set (declared_keys (sv_jsonSchema validation options)) \<longrightarrow>
            map_of (form_data (superValidate ext data validation options :: 'm superValidated)) key = None) \<and>
         (key \<in> set (declared_keys (sv_jsonSchema validation options)) \<and> inherited key = None \<longrightarrow>
            map_of (form_data (superValidate ext data validation options :: 'm superValidated)) key =
              (case map_of (sv_final ext data validation options) key of
                 Some v \<Rightarrow> Some v
               | None \<Rightarrow>
                   (case map_of (sv_defaults validation options) key of
                      Some v \<Rightarrow> (if v \<noteq> JUndefined then Some v else None)
                    | None \<Rightarrow> None)))"
proof -
  have "inherited ''__proto__'' \<noteq> None"
    by (simp add: inherited_def)
  then have "inherited key = None \<Longrightarrow> key \<noteq> ''__proto__''"
    by auto
  then show ?thesis
    using assms
    by (auto simp: map_of_stripped_data has_key_own get_prop_own split: option.splits)
qed

text \<open>
  C3, at an input where the code departs from it. The schema sets
  \<open>additionalProperties\<close> to false and declares \<open>name\<close>, \<open>email\<close> and \<open>constructor\<close>; the post
  holds \<open>name\<close> and \<open>email\<close>, and the defaults hold no \<open>constructor\<close> either. The key is
  declared, it is in neither the merged data nor the defaults, and the returned data
  hold it all the same: \<open>'constructor' in finalData\<close> answers for the member that every
  object inherits, and the loop copies the inherited function \<open>Object\<close>.
\<close>

theorem superValidate_inherited_key_filled:
  "additionalProperties (sv_jsonSchema adapter_example
      (no_options\<lparr>opt_jsonSchema := Some schema_with_constructor_example\<rparr>)) = JBool False \<and>
   ''constructor'' \<in> set (declared_keys (sv_jsonSchema adapter_example
      (no_options\<lparr>opt_jsonSchema := Some schema_with_constructor_example\<rparr>))) \<and>
   map_of (sv_final externals_example post_invalid adapter_example
      (no_options\<lparr>opt_jsonSchema := Some schema_with_constructor_example\<rparr>)) ''constructor'' = None \<and>
   map_of (sv_defaults adapter_example
      (no_options\<lparr>opt_jsonSchema := Some schema_with_constructor_example\<rparr>)) ''constructor'' = None \<and>
   map_of (form_data (superValidate externals_example post_invalid adapter_example
      (no_options\<lparr>opt_jsonSchema := Some schema_with_constructor_example\<rparr>)
      :: string superValidated)) ''constructor'' = Some (JFunction ''Object'')"
proof -
  let ?o = "no_options\<lparr>opt_jsonSchema := Some schema_with_constructor_example\<rparr>"
  have schema: "sv_jsonSchema adapter_example ?o = schema_with_constructor_example"
    by (simp add: sv_jsonSchema_def no_options_def)
  have falsy: "additionalProperties (sv_jsonSchema adapter_example ?o) = JBool False"
    unfolding schema by (simp add: schema_with_constructor_example_def)
  have keys: "declared_keys (sv_jsonSchema adapter_example ?o) =
      [''name'', ''email'', ''constructor'']"
    unfolding schema
    by (simp add: schema_with_constructor_example_def declared_keys_def object_keys_def)
  have defaults: "sv_defaults adapter_example ?o =
      [(''name'', JString ''Hello world!''), (''email'', JString [])]"
    by (simp add: sv_defaults_def no_options_def adapter_example_def)
  have parsed: "sv_parsed externals_example post_invalid adapter_example ?o =
      \<lparr>parsed_id = None,
       parsed_data = Some [(''name'', JString []), (''email'', JString ''not-an-email'')],
       parsed_posted = True\<rparr>"
    by (simp add: sv_parsed_def externals_example_def parseRequest_example_def post_invalid_def)
  have merged: "sv_record externals_example post_invalid adapter_example ?o =
      [(''name'', JString []), (''email'', JString ''not-an-email'')]"
    unfolding sv_record_def parsed defaults
    by (simp add: sv_merged_def spread_def no_options_def)
  have final: "sv_final externals_example post_invalid adapter_example ?o =
      [(''name'', JString []), (''email'', JString ''not-an-email'')]"
    unfolding sv_final_def sv_result_def parsed merged
    by (simp add: sv_status_def run_validator_def adapter_example_def validate_example_def
          object_keys_def)
  have inherits: "inherited ''constructor'' = Some (JFunction ''Object'')"
    by (simp add: inherited_def prototype_members_def)
  have falsy': "\<not> truthy (additionalProperties (sv_jsonSchema adapter_example ?o))"
    by (simp add: falsy)
  have data: "map_of (form_data (superValidate externals_example post_invalid adapter_example ?o
      :: string superValidated)) ''constructor'' = Some (JFunction ''Object'')"
    by (simp add: map_of_stripped_data [OF falsy'] keys final has_key_def get_prop_def inherits)
  show ?thesis
    using falsy keys final defaults data by simp
qed

section \<open>The merge step\<close>

lemma sv_result_validated:
  assumes "parsed_data (sv_parsed ext data validation options) = Some input"
  shows "sv_result ext data validation options =
           run_validator validation (sv_record ext data validation options)"
  using assms by (simp add: sv_result_def sv_status_def)

lemma sv_record_merged:
  assumes "parsed_data (sv_parsed ext data validation options) = Some input"
  shows "sv_record ext data validation options =
           spread (if opt_strict options = Some True then [] else sv_defaults validation options)
             input"
  using assms by (simp add: sv_record_def sv_merged_def)

text \<open>
  C4, as the code has it. When the parsed input is a record, \<open>superValidate\<close> runs the
  validator (the custom one if the adapter has it) on the merged record, and the
  returned \<open>valid\<close> and \<open>data\<close> come from that run. In non-strict mode the merged record is
  the defaults in force overlaid key by key with the input, the input winning: a key of
  the input keeps the input's value (an empty string too), any other key has its
  default. In strict mode the record has the input's keys and values and nothing else.
  The defaults in force are \<open>options.defaults\<close> when the caller passes it, and the adapter's
  defaults otherwise. (The spec names the adapter's defaults alone.)
\<close>

theorem superValidate_merge_step:
  assumes "parsed_data (sv_parsed ext data validation options) = Some input"
  shows
    "form_valid (superValidate ext data validation options :: 'm superValidated) =
       success (run_validator validation
         (spread (if opt_strict options = Some True then [] else sv_defaults validation options)
            input)) \<and>
     form_data (superValidate ext data validation options :: 'm superValidated) =
       sv_outputData (sv_jsonSchema validation options) (sv_defaults validation options)
         (sv_finalData
            (run_validator validation
               (spread (if opt_strict options = Some True then []
                        else sv_defaults validation options) input))
            (spread (if opt_strict options = Some True then []
                     else sv_defaults validation options) input)) \<and>
     (opt_strict options \<noteq> Some True \<longrightarrow>
        map_of (spread (if opt_strict options = Some True then []
                        else sv_defaults validation options) input) key =
          (case map_of input key of
             Some v \<Rightarrow> Some v
           | None \<Rightarrow> map_of (sv_defaults validation options) key)) \<and>
     (opt_strict options = Some True \<longrightarrow>
        map_of (spread (if opt_strict options = Some True then []
                        else sv_defaults validation options) input) = map_of input) \<and>
     sv_defaults validation options =
       (case opt_defaults options of Some d \<Rightarrow> d | None \<Rightarrow> adapter_defaults validation)"
proof -
  let ?merged = "spread (if opt_strict options = Some True then []
                         else sv_defaults validation options) input"
  have merged: "sv_record ext data validation options = ?merged"
    using assms by (rule sv_record_merged)
  have result: "sv_result ext data validation options = run_validator validation ?merged"
    using assms merged by (simp add: sv_result_validated)
  have valid: "form_valid (superValidate ext data validation options :: 'm superValidated) =
      success (run_validator validation ?merged)"
    by (simp add: superValidate_stages(2) result)
  have data: "form_data (superValidate ext data validation options :: 'm superValidated) =
      sv_outputData (sv_jsonSchema validation options) (sv_defaults validation options)
        (sv_finalData (run_validator validation ?merged) ?merged)"
    by (simp add: superValidate_stages(5) sv_final_def result merged)
  have overlay: "opt_strict options \<noteq> Some True \<Longrightarrow>
      map_of ?merged key =
        (case map_of input key of
           Some v \<Rightarrow> Some v
         | None \<Rightarrow> map_of (sv_defaults validation options) key)"
    by (simp add: map_of_spread map_add_def)
  have strict: "opt_strict options = Some True \<Longrightarrow> map_of ?merged = map_of input"
    by (simp add: map_of_spread)
  have defaults: "sv_defaults validation options =
      (case opt_defaults options of Some d \<Rightarrow> d | None \<Rightarrow> adapter_defaults validation)"
    by (simp add: sv_defaults_def)
  show ?thesis
    using valid data overlay strict defaults by blast
qed

theorem superValidate_merge_step_witness:
  "parsed_data (sv_parsed externals_example post_invalid adapter_example no_options) =
     Some [(''name'', JString []), (''email'', JString ''not-an-email'')] \<and>
   opt_strict no_options \<noteq> Some True \<and>
   form_valid (superValidate externals_example post_invalid adapter_example no_options
                 :: string superValidated) =
     success (validate_example
       (spread (adapter_defaults adapter_example)
          [(''name'', JString []), (''email'', JString ''not-an-email'')])) \<and>
   map_of (spread (adapter_defaults adapter_example)
             [(''name'', JString []), (''email'', JString ''not-an-email'')]) ''name'' =
     Some (JString []) \<and>
   parsed_data (sv_parsed externals_example post_without_id adapter_example no_options) =
     Some [(''email'', JString ''ada@example.org'')] \<and>
   map_of (spread (adapter_defaults adapter_example) [(''email'', JString ''ada@example.org'')])
       ''name'' =
     Some (JString ''Hello world!'') \<and>
   opt_strict (no_options\<lparr>opt_strict := Some True\<rparr>) = Some True \<and>
   parsed_data (sv_parsed externals_example post_without_id adapter_example
                  (no_options\<lparr>opt_strict := Some True\<rparr>)) =
     Some [(''email'', JString ''ada@example.org'')] \<and>
   map_of (spread [] [(''email'', JString ''ada@example.org'')]) =
     map_of [(''email'', JString ''ada@example.org'')]"
proof -
  let ?strict = "no_options\<lparr>opt_strict := Some True\<rparr>"
  have p1: "parsed_data (sv_parsed externals_example post_invalid adapter_example no_options) =
     Some [(''name'', JString []), (''email'', JString ''not-an-email'')]"
    by (simp add: example_defs post_invalid_def)
  have p2: "parsed_data (sv_parsed externals_example post_without_id adapter_example no_options) =
     Some [(''email'', JString ''ada@example.org'')]"
    by (simp add: example_defs post_without_id_def)
  have p3: "parsed_data (sv_parsed externals_example post_without_id adapter_example ?strict) =
     Some [(''email'', JString ''ada@example.org'')]"
    by (simp add: example_defs post_without_id_def)
  have o: "opt_strict no_options = None" "opt_strict ?strict = Some True"
    "sv_defaults adapter_example no_options = adapter_defaults adapter_example"
    "run_validator adapter_example = validate_example"
    "map_of (adapter_defaults adapter_example) ''name'' = Some (JString ''Hello world!'')"
    by (simp_all add: no_options_def adapter_example_def sv_defaults_def run_validator_def
          fun_eq_iff)
  show ?thesis
    using p1 p2 p3
      superValidate_merge_step [OF p1, where key = "''name''" and ?'m = string, THEN conjunct1]
      superValidate_merge_step [OF p1, where key = "''name''" and ?'m = string,
        THEN conjunct2, THEN conjunct2, THEN conjunct1]
      superValidate_merge_step [OF p2, where key = "''name''" and ?'m = string,
        THEN conjunct2, THEN conjunct2, THEN conjunct1]
      superValidate_merge_step [OF p3, where key = "''name''" and ?'m = string,
        THEN conjunct2, THEN conjunct2, THEN conjunct2, THEN conjunct1]
    by (simp add: o)
qed

text \<open>A post without \<open>name\<close>, validated with \<open>options.defaults = {name: 'Grace', email: ''}\<close>
  against the adapter whose defaults have \<open>name: 'Hello world!'\<close>: the record that is
  validated, and the data returned, have the caller's \<open>name\<close>, where the adapter's
  defaults overlaid with the input have \<open>'Hello world!'\<close>.\<close>

theorem superValidate_merge_adapter_defaults_counterexample:
  "opt_strict options_with_defaults_example \<noteq> Some True \<and>
   parsed_data (sv_parsed externals_example post_without_id adapter_example
                  options_with_defaults_example) =
     Some [(''email'', JString ''ada@example.org'')] \<and>
   map_of (sv_record externals_example post_without_id adapter_example
             options_with_defaults_example) ''name'' = Some (JString ''Grace'') \<and>
   map_of (spread (adapter_defaults adapter_example) [(''email'', JString ''ada@example.org'')])
       ''name'' = Some (JString ''Hello world!'') \<and>
   map_of (form_data (superValidate externals_example post_without_id adapter_example
                        options_with_defaults_example :: string superValidated)) ''name'' =
     Some (JString ''Grace'')"
proof -
  have merged: "sv_record externals_example post_without_id adapter_example
      options_with_defaults_example =
      [(''name'', JString ''Grace''), (''email'', JString ''ada@example.org'')]"
    by (simp add: example_defs options_with_defaults_example_def post_without_id_def)
  have final: "sv_final externals_example post_without_id adapter_example
      options_with_defaults_example =
      [(''name'', JString ''Grace''), (''email'', JString ''ada@example.org'')]"
    by (simp add: sv_final_def merged)
       (simp add: example_defs run_validator_def options_with_defaults_example_def
          post_without_id_def)
  have falsy: "\<not> truthy (additionalProperties (sv_jsonSchema adapter_example
      options_with_defaults_example))"
    by (simp add: example_defs options_with_defaults_example_def)
  have keys: "''name'' \<in> set (declared_keys (sv_jsonSchema adapter_example
      options_with_defaults_example))"
    by (simp add: example_defs options_with_defaults_example_def)
  have data: "map_of (form_data (superValidate externals_example post_without_id adapter_example
                        options_with_defaults_example :: string superValidated)) ''name'' =
     Some (JString ''Grace'')"
    by (simp add: map_of_stripped_data [OF falsy] keys final has_key_def get_prop_def)
  have rest: "opt_strict options_with_defaults_example \<noteq> Some True"
    "parsed_data (sv_parsed externals_example post_without_id adapter_example
                  options_with_defaults_example) =
       Some [(''email'', JString ''ada@example.org'')]"
    "map_of (spread (adapter_defaults adapter_example)
               [(''email'', JString ''ada@example.org'')]) ''name'' =
       Some (JString ''Hello world!'')"
    by (simp_all add: example_defs options_with_defaults_example_def post_without_id_def)
  show ?thesis
    using merged data rest by simp
qed

section \<open>An absent input\<close>

lemma sv_result_skipped:
  assumes "opt_errors options = None" and "opt_strict options = None"
    and "parsed_data (sv_parsed ext None validation options) = None"
  shows "sv_result ext None validation options = Failure []"
  using assms by (simp add: sv_result_def sv_status_def sv_addErrors_def)

lemma sv_record_defaults:
  assumes "opt_strict options = None"
    and "parsed_data (sv_parsed ext data validation options) = None"
  shows "sv_record ext data validation options = sv_defaults validation options"
  using assms by (simp add: sv_record_def sv_merged_def spread_def)

lemma superValidate_validator_irrelevant:
  assumes "opt_errors options = None" and "opt_strict options = None"
    and "parsed_data (sv_parsed ext None validation options) = None"
  shows "superValidate ext None (validation\<lparr>adapter_validator := v, adapter_customValidator := cv\<rparr>) options
         = (superValidate ext None validation options :: 'm superValidated)"
proof -
  let ?validation' = "validation\<lparr>adapter_validator := v, adapter_customValidator := cv\<rparr>"
  have same: "sv_jsonSchema ?validation' options = sv_jsonSchema validation options"
    "sv_defaults ?validation' options = sv_defaults validation options"
    by (simp_all add: sv_jsonSchema_def sv_defaults_def split: option.splits)
  have "sv_status ?validation' False False merged = sv_status validation False False merged" for merged
    by (simp add: sv_status_def)
  then show ?thesis
    using assms by (simp add: superValidate_def Let_def sv_parsed_def same sv_addErrors_def sv_status_def)
qed

text \<open>
  C5, as the code has it. \<open>superValidate\<close> called with no data (\<open>null\<close> or \<open>undefined\<close>,
  for which \<open>parseRequest\<close> returns no data either), no \<open>errors\<close> option and no \<open>strict\<close>
  option does not run the validator: the status is the issue-free failure, and the
  returned form is the same whatever validator the adapter holds. The form has
  \<open>valid = false\<close> and \<open>errors = {}\<close>. Its data are the defaults in force, which are
  \<open>options.defaults\<close> when the caller passes it and the adapter's defaults otherwise (the
  spec names the adapter's alone): the whole tree when \<open>additionalProperties\<close> is truthy;
  when it is false (or otherwise falsy), the tree restricted to the declared keys, for
  every key that is no name of a member inherited from \<open>Object.prototype\<close>.
\<close>

theorem superValidate_empty_input:
  assumes "opt_errors options = None" and "opt_strict options = None"
    and "parsed_data (sv_parsed ext None validation options) = None"
  shows "sv_result ext None validation options = Failure [] \<and>
     superValidate ext None
         (validation\<lparr>adapter_validator := v, adapter_customValidator := cv\<rparr>) options
       = (superValidate ext None validation options :: 'm superValidated) \<and>
     form_valid (superValidate ext None validation options :: 'm superValidated) = False \<and>
     form_errors (superValidate ext None validation options :: 'm superValidated) = Some [] \<and>
     (truthy (additionalProperties (sv_jsonSchema validation options)) \<longrightarrow>
        form_data (superValidate ext None validation options :: 'm superValidated) =
          sv_defaults validation options) \<and>
     (\<not> truthy (additionalProperties (sv_jsonSchema validation options)) \<and>
      inherited key = None \<longrightarrow>
        map_of (form_data (superValidate ext None validation options :: 'm superValidated)) key =
          (if key \<in> set (declared_keys (sv_jsonSchema validation options))
           then map_of (sv_defaults validation options) key else None)) \<and>
     sv_defaults validation options =
       (case opt_defaults options of Some d \<Rightarrow> d | None \<Rightarrow> adapter_defaults validation)"
proof -
  have defaults: "sv_defaults validation options =
      (case opt_defaults options of Some d \<Rightarrow> d | None \<Rightarrow> adapter_defaults validation)"
    by (simp add: sv_defaults_def)
  have skipped: "sv_result ext None validation options = Failure []"
    using assms by (rule sv_result_skipped)
  have final: "sv_final ext None validation options = sv_defaults validation options"
    using assms by (simp add: sv_final_def skipped sv_record_defaults)
  have same: "superValidate ext None
         (validation\<lparr>adapter_validator := v, adapter_customValidator := cv\<rparr>) options
       = (superValidate ext None validation options :: 'm superValidated)"
    using assms by (rule superValidate_validator_irrelevant)
  have valid: "form_valid (superValidate ext None validation options :: 'm superValidated) = False"
    by (simp add: superValidate_stages(2) skipped)
  have errors: "form_errors (superValidate ext None validation options :: 'm superValidated)
      = Some []"
    using assms by (simp add: superValidate_stages(4) skipped sv_addErrors_def)
  have whole: "truthy (additionalProperties (sv_jsonSchema validation options)) \<Longrightarrow>
      form_data (superValidate ext None validation options :: 'm superValidated) =
        sv_defaults validation options"
    by (simp add: superValidate_stages(5) final sv_outputData_def fill_defaults_same)
  have stripped: "\<not> truthy (additionalProperties (sv_jsonSchema validation options)) \<Longrightarrow>
      inherited key = None \<Longrightarrow>
      map_of (form_data (superValidate ext None validation options :: 'm superValidated)) key =
        (if key \<in> set (declared_keys (sv_jsonSchema validation options))
         then map_of (sv_defaults validation options) key else None)"
    using superValidate_fill_rule [where ext = ext and data = None and validation = validation
        and options = options and key = key and ?'m = 'm]
    by (auto simp: final split: option.splits)
  show ?thesis
    using skipped same valid errors whole stripped defaults by blast
qed

theorem superValidate_empty_input_witness:
  "opt_errors no_options = None \<and> opt_strict no_options = None \<and>
   parsed_data (sv_parsed externals_example None adapter_example no_options) = None \<and>
   additionalProperties (sv_jsonSchema adapter_example no_options) = JBool False \<and>
   inherited ''name'' = None \<and>
   ''name'' \<in> set (declared_keys (sv_jsonSchema adapter_example no_options)) \<and>
   superValidate externals_example None
       (adapter_example\<lparr>adapter_validator := Success, adapter_customValidator := None\<rparr>)
       no_options =
     (superValidate externals_example None adapter_example no_options :: string superValidated) \<and>
   form_valid (superValidate externals_example None adapter_example no_options
                 :: string superValidated) = False \<and>
   form_errors (superValidate externals_example None adapter_example no_options
                  :: string superValidated) = Some [] \<and>
   map_of (form_data (superValidate externals_example None adapter_example no_options
                        :: string superValidated)) ''name'' =
     map_of (adapter_defaults adapter_example) ''name'' \<and>
   additionalProperties (sv_jsonSchema adapter_example
     (no_options\<lparr>opt_jsonSchema := Some (schema_example\<lparr>additionalProperties := JBool True\<rparr>)\<rparr>))
     = JBool True \<and>
   form_data (superValidate externals_example None adapter_example
                (no_options\<lparr>opt_jsonSchema :=
                   Some (schema_example\<lparr>additionalProperties := JBool True\<rparr>)\<rparr>)
                :: string superValidated) =
     adapter_defaults adapter_example"
proof -
  let ?open = "no_options\<lparr>opt_jsonSchema :=
                 Some (schema_example\<lparr>additionalProperties := JBool True\<rparr>)\<rparr>"
  have h: "opt_errors no_options = None" "opt_strict no_options = None"
    "parsed_data (sv_parsed externals_example None adapter_example no_options) = None"
    by (simp_all add: example_defs)
  have h': "opt_errors ?open = None" "opt_strict ?open = None"
    "parsed_data (sv_parsed externals_example None adapter_example ?open) = None"
    by (simp_all add: example_defs)
  have s: "additionalProperties (sv_jsonSchema adapter_example no_options) = JBool False"
    "declared_keys (sv_jsonSchema adapter_example no_options) = [''name'', ''email'']"
    "sv_defaults adapter_example no_options = adapter_defaults adapter_example"
    "additionalProperties (sv_jsonSchema adapter_example ?open) = JBool True"
    "sv_defaults adapter_example ?open = adapter_defaults adapter_example"
    "inherited ''name'' = None"
    by (simp_all add: example_defs inherited_def prototype_members_def)
  note w = superValidate_empty_input [OF h, where v = Success and cv = None
      and key = "''name''" and ?'m = string]
  note w' = superValidate_empty_input [OF h', where v = Success and cv = None
      and key = "''name''" and ?'m = string]
  show ?thesis
    using h
      w [THEN conjunct2, THEN conjunct1]
      w [THEN conjunct2, THEN conjunct2, THEN conjunct1]
      w [THEN conjunct2, THEN conjunct2, THEN conjunct2, THEN conjunct1]
      w [THEN conjunct2, THEN conjunct2, THEN conjunct2, THEN conjunct2, THEN conjunct2,
         THEN conjunct1]
      w' [THEN conjunct2, THEN conjunct2, THEN conjunct2, THEN conjunct2, THEN conjunct1]
    by (simp add: s)
qed

text \<open>No data, and \<open>options.defaults = {name: 'Grace', email: ''}\<close> with the adapter whose
  defaults have \<open>name: 'Hello world!'\<close>: the returned data have the caller's \<open>name\<close>, not
  the adapter's.\<close>

theorem superValidate_empty_input_adapter_defaults_counterexample:
  "opt_errors options_with_defaults_example = None \<and>
   opt_strict options_with_defaults_example = None \<and>
   map_of (form_data (superValidate externals_example None adapter_example
                        options_with_defaults_example :: string superValidated)) ''name'' =
     Some (JString ''Grace'') \<and>
   map_of (adapter_defaults adapter_example) ''name'' = Some (JString ''Hello world!'')"
proof -
  have h: "opt_errors options_with_defaults_example = None"
    "opt_strict options_with_defaults_example = None"
    "parsed_data (sv_parsed externals_example None adapter_example
       options_with_defaults_example) = None"
    by (simp_all add: example_defs options_with_defaults_example_def)
  have final: "sv_final externals_example None adapter_example options_with_defaults_example =
      [(''name'', JString ''Grace''), (''email'', JString [])]"
    using h
    by (simp add: sv_final_def sv_result_skipped sv_record_defaults)
       (simp add: sv_defaults_def options_with_defaults_example_def no_options_def)
  have falsy: "\<not> truthy (additionalProperties (sv_jsonSchema adapter_example
      options_with_defaults_example))"
    by (simp add: example_defs options_with_defaults_example_def)
  have keys: "''name'' \<in> set (declared_keys (sv_jsonSchema adapter_example
      options_with_defaults_example))"
    by (simp add: example_defs options_with_defaults_example_def)
  have data: "map_of (form_data (superValidate externals_example None adapter_example
                        options_with_defaults_example :: string superValidated)) ''name'' =
     Some (JString ''Grace'')"
    by (simp add: map_of_stripped_data [OF falsy] keys final has_key_def get_prop_def)
  have adapters: "map_of (adapter_defaults adapter_example) ''name'' =
      Some (JString ''Hello world!'')"
    by (simp add: adapter_example_def)
  show ?thesis
    using h(1,2) data adapters by simp
qed

section \<open>A schema without properties\<close>

text \<open>
  C6. When \<open>jsonSchema.properties\<close> is absent and \<open>additionalProperties\<close> is false, the set
  of declared keys is empty and the data of the returned form is the empty object,
  whatever the input and the defaults hold.
\<close>

theorem superValidate_no_properties:
  assumes "properties (sv_jsonSchema validation options) = None"
    and "additionalProperties (sv_jsonSchema validation options) = JBool False"
  shows "form_data (superValidate ext data validation options :: 'm superValidated) = []"
  using assms by (simp add: superValidate_stages(5) sv_outputData_def declared_keys_def object_keys_def)

theorem superValidate_no_properties_witness:
  "properties (sv_jsonSchema adapter_example
      (no_options\<lparr>opt_jsonSchema := Some (schema_example\<lparr>properties := None\<rparr>)\<rparr>)) = None \<and>
   additionalProperties (sv_jsonSchema adapter_example
      (no_options\<lparr>opt_jsonSchema := Some (schema_example\<lparr>properties := None\<rparr>)\<rparr>)) = JBool False \<and>
   form_data (superValidate externals_example post_invalid adapter_example
      (no_options\<lparr>opt_jsonSchema := Some (schema_example\<lparr>properties := None\<rparr>)\<rparr>)
      :: string superValidated) = []"
proof -
  let ?o = "no_options\<lparr>opt_jsonSchema := Some (schema_example\<lparr>properties := None\<rparr>)\<rparr>"
  have h: "properties (sv_jsonSchema adapter_example ?o) = None"
    "additionalProperties (sv_jsonSchema adapter_example ?o) = JBool False"
    by (simp_all add: example_defs)
  show ?thesis
    using h superValidate_no_properties [OF h, where ext = externals_example and data = post_invalid and ?'m = string] by simp
qed

section \<open>A schema that does not set additionalProperties\<close>

text \<open>
  C10. When the schema does not set \<open>additionalProperties\<close> at all, \<open>superValidate\<close> strips
  the keys as it does for \<open>additionalProperties: false\<close>: the data of the returned form
  have no key outside the declared ones, so the extra keys of the input are dropped,
  and the data are what the stripping loop gives under the same schema with
  \<open>additionalProperties\<close> set to false.
\<close>

theorem superValidate_absent_additionalProperties:
  assumes "additionalProperties (sv_jsonSchema validation options) = JUndefined"
  shows "(key \<notin> set (declared_keys (sv_jsonSchema validation options)) \<longrightarrow>
            map_of (form_data (superValidate ext data validation options :: 'm superValidated))
              key = None) \<and>
         form_data (superValidate ext data validation options :: 'm superValidated) =
           sv_outputData
             ((sv_jsonSchema validation options)\<lparr>additionalProperties := JBool False\<rparr>)
             (sv_defaults validation options) (sv_final ext data validation options)"
proof -
  have falsy: "\<not> truthy (additionalProperties (sv_jsonSchema validation options))"
    using assms by simp
  have keys: "declared_keys
        ((sv_jsonSchema validation options)\<lparr>additionalProperties := JBool False\<rparr>)
      = declared_keys (sv_jsonSchema validation options)"
    by (simp add: declared_keys_def)
  have dropped: "key \<notin> set (declared_keys (sv_jsonSchema validation options)) \<Longrightarrow>
      map_of (form_data (superValidate ext data validation options :: 'm superValidated)) key
        = None"
    by (simp add: map_of_stripped_data [OF falsy])
  have same: "form_data (superValidate ext data validation options :: 'm superValidated) =
      sv_outputData
        ((sv_jsonSchema validation options)\<lparr>additionalProperties := JBool False\<rparr>)
        (sv_defaults validation options) (sv_final ext data validation options)"
    using falsy by (simp add: superValidate_stages(5) sv_outputData_def keys)
  show ?thesis
    using dropped same by blast
qed

theorem superValidate_absent_additionalProperties_witness:
  "additionalProperties (sv_jsonSchema adapter_example
      (no_options\<lparr>opt_jsonSchema := Some (schema_example\<lparr>additionalProperties := JUndefined\<rparr>)\<rparr>))
     = JUndefined \<and>
   ''foo'' \<notin> set (declared_keys (sv_jsonSchema adapter_example
      (no_options\<lparr>opt_jsonSchema := Some (schema_example\<lparr>additionalProperties := JUndefined\<rparr>)\<rparr>))) \<and>
   map_of (sv_final externals_example post_with_extra_key adapter_example
      (no_options\<lparr>opt_jsonSchema := Some (schema_example\<lparr>additionalProperties := JUndefined\<rparr>)\<rparr>))
     ''foo'' = Some (JString ''bar'') \<and>
   map_of (form_data (superValidate externals_example post_with_extra_key adapter_example
      (no_options\<lparr>opt_jsonSchema := Some (schema_example\<lparr>additionalProperties := JUndefined\<rparr>)\<rparr>)
      :: string superValidated)) ''foo'' = None"
proof -
  let ?o = "no_options\<lparr>opt_jsonSchema :=
              Some (schema_example\<lparr>additionalProperties := JUndefined\<rparr>)\<rparr>"
  have h: "additionalProperties (sv_jsonSchema adapter_example ?o) = JUndefined"
    by (simp add: example_defs)
  have keys: "declared_keys (sv_jsonSchema adapter_example ?o) = [''name'', ''email'']"
    by (simp add: example_defs)
  have final: "sv_final externals_example post_with_extra_key adapter_example ?o =
      [(''name'', JString []), (''email'', JString ''not-an-email''), (''foo'', JString ''bar'')]"
    by (simp add: example_defs run_validator_def post_with_extra_key_def)
  show ?thesis
    using h
      superValidate_absent_additionalProperties
        [OF h, where key = "''foo''" and ext = externals_example
           and data = post_with_extra_key and ?'m = string, THEN conjunct1]
    by (simp add: keys final)
qed

section \<open>Facts about the traversal and setError\<close>

lemma read_path_empty: "segs \<noteq> [] \<Longrightarrow> read_path [] segs = None"
  by (induction segs rule: induct_list012) auto

lemma enters_array_empty: "\<not> enters_array [] segs"
  by (induction segs rule: induct_list012) auto

lemma traversePath_create_missing:
  assumes "segs \<noteq> []" and "\<not> enters_array root segs"
  shows "\<exists>root' leaf. traversePath offTree root segs create_missing = Inr (root', Some leaf) \<and>
      leaf_value leaf = read_path root segs \<and>
      (\<forall>v. read_path (assign_at root' (leaf_parent leaf) (leaf_key leaf) v) segs = Some v \<and>
           \<not> enters_array (assign_at root' (leaf_parent leaf) (leaf_key leaf) v) segs)"
  using assms
proof (induction segs arbitrary: root rule: induct_list012)
  case 1
  then show ?case by simp
next
  case (2 key)
  then show ?case by (simp add: map_of_set_prop)
next
  case (3 key nxt rest)
  define parent' where
    "parent' = (case map_of root key of None \<Rightarrow> create_missing root key None | Some v \<Rightarrow> root)"
  define child where
    "child = (case map_of root key of Some (ErrObject c) \<Rightarrow> c | Some (ErrArray ms) \<Rightarrow> [] | None \<Rightarrow> [])"
  have not_array: "map_of root key \<noteq> Some (ErrArray ms)" for ms
    using "3.prems" by auto
  have at_key: "map_of parent' key = Some (ErrObject child)"
    using not_array
    by (auto simp: parent'_def child_def create_missing_def map_of_set_prop
             split: option.splits errs.splits)
  have walk: "\<not> enters_array child (nxt # rest)"
    using "3.prems" by (auto simp: child_def enters_array_empty split: option.splits errs.splits)
  have before: "read_path root (key # nxt # rest) = read_path child (nxt # rest)"
    using not_array by (auto simp: child_def read_path_empty split: option.splits errs.splits)
  from "3.IH"(2) [OF _ walk] obtain child' leaf0 where
    rec: "traversePath offTree child (nxt # rest) create_missing = Inr (child', Some leaf0)"
    and val: "leaf_value leaf0 = read_path child (nxt # rest)"
    and after: "\<And>v. read_path (assign_at child' (leaf_parent leaf0) (leaf_key leaf0) v) (nxt # rest) = Some v"
    and still: "\<And>v. \<not> enters_array (assign_at child' (leaf_parent leaf0) (leaf_key leaf0) v) (nxt # rest)"
    by auto
  let ?root' = "set_prop key (ErrObject child') parent'"
  let ?leaf = "leaf0\<lparr>leaf_parent := key # leaf_parent leaf0\<rparr>"
  have result: "traversePath offTree root (key # nxt # rest) create_missing = Inr (?root', Some ?leaf)"
    using at_key rec by (simp add: parent'_def [symmetric] Let_def)
  have written: "assign_at ?root' (leaf_parent ?leaf) (leaf_key ?leaf) v =
      set_prop key (ErrObject (assign_at child' (leaf_parent leaf0) (leaf_key leaf0) v)) ?root'" for v
    by (simp add: map_of_set_prop)
  show ?case
    using result val before after still
    by (simp add: written map_of_set_prop del: traversePath.simps)
qed

lemma traversePath_through:
  assumes "\<And>msgs rest. offTree msgs rest = None"
  shows "\<exists>result. traversePath offTree root segs create_missing = Inr result"
proof (induction segs arbitrary: root rule: induct_list012)
  case 1
  then show ?case by simp
next
  case (2 key)
  then show ?case by simp
next
  case (3 key nxt rest)
  show ?case
  proof (cases "map_of (case map_of root key of
                          None \<Rightarrow> create_missing root key None
                        | Some v \<Rightarrow> root) key")
    case None
    then show ?thesis by (simp add: Let_def)
  next
    case (Some v)
    show ?thesis
    proof (cases v)
      case (ErrArray msgs)
      then show ?thesis using Some assms by (simp add: Let_def)
    next
      case (ErrObject child)
      from "3.IH"(2) [of child] obtain result where
        "traversePath offTree child (nxt # rest) create_missing = Inr result"
        by blast
      then show ?thesis
        using Some ErrObject by (cases result) (simp add: Let_def)
    qed
  qed
qed

lemma read_path_below_array:
  "read_path root segs = Some (ErrArray msgs) \<Longrightarrow> read_path root (segs @ [key]) = None"
proof (induction segs arbitrary: root rule: induct_list012)
  case 1
  then show ?case by simp
next
  case (2 k)
  then show ?case by simp
next
  case (3 k nxt rest)
  then show ?case
    by (auto split: option.splits errs.splits)
qed


lemma set_field_errors_resolved:
  assumes "splitPath path = Inr segs" and "segs \<noteq> []" and "\<not> enters_array errors segs"
  shows "\<exists>errors'. set_field_errors splitPath offTree errors path errArr ow = Inr errors' \<and>
      read_path errors' segs =
        Some (ErrArray (if ow then errArr else messages_of (read_path errors segs) @ errArr)) \<and>
      \<not> enters_array errors' segs"
proof -
  from traversePath_create_missing [OF assms(2,3)] obtain root' leaf where
    t: "traversePath offTree errors segs create_missing = Inr (root', Some leaf)"
    and v: "leaf_value leaf = read_path errors segs"
    and w: "\<And>v. read_path (assign_at root' (leaf_parent leaf) (leaf_key leaf) v) segs = Some v"
    and a: "\<And>v. \<not> enters_array (assign_at root' (leaf_parent leaf) (leaf_key leaf) v) segs"
    by blast
  have new: "(case read_path errors segs of
               Some (ErrArray old) \<Rightarrow> if \<not> ow then old @ errArr else errArr
             | Some (ErrObject ps) \<Rightarrow> errArr
             | None \<Rightarrow> errArr) =
             (if ow then errArr else messages_of (read_path errors segs) @ errArr)"
    by (simp add: messages_of_def split: option.splits errs.splits)
  show ?thesis
    using assms(1) t v w a by (simp add: set_field_errors_def new)
qed

lemma set_field_errors_returns:
  assumes "splitPath path = Inr segs"
    and "\<not> enters_array errors segs \<or> (\<forall>msgs rest. offTree msgs rest = None)"
  shows "\<exists>errors'. set_field_errors splitPath offTree errors path errArr ow = Inr errors'"
proof (cases "\<not> enters_array errors segs \<and> segs \<noteq> []")
  case True
  then have "segs \<noteq> []" and "\<not> enters_array errors segs"
    by simp_all
  from set_field_errors_resolved
         [where splitPath = splitPath and path = path and segs = segs and errors = errors
            and errArr = errArr and ow = ow and offTree = offTree, OF assms(1) this]
  show ?thesis by blast
next
  case False
  show ?thesis
  proof (cases "segs = []")
    case True
    then show ?thesis using assms(1) by (simp add: set_field_errors_def)
  next
    case nonempty: False
    then have "\<forall>msgs rest. offTree msgs rest = None"
      using False assms(2) by blast
    then obtain result where
      "traversePath offTree errors segs create_missing = Inr result"
      using traversePath_through [of offTree errors segs] by blast
    then show ?thesis
      using assms(1)
      by (cases result) (auto simp: set_field_errors_def split: option.splits)
  qed
qed

lemma set_form_errors_typed:
  assumes "own_errors_typed errors"
  shows "set_form_errors errors errArr ow =
     Inr (set_prop ''_errors''
            (ErrArray (if ow then errArr else messages_of (map_of errors ''_errors'') @ errArr))
            (if map_of errors ''_errors'' = None
             then set_prop ''_errors'' (ErrArray []) errors else errors))"
  using assms
  by (auto simp: set_form_errors_def own_errors_typed_def Let_def messages_of_def map_of_set_prop
           split: option.splits errs.splits)

lemma setError_unfold:
  "setError splitPath offTree form call =
     (case (if fst (unify call) = []
            then set_form_errors (errors_or_empty form) (errArr_of (fst (snd (unify call)))) (overwrites (snd (snd (unify call))))
            else set_field_errors splitPath offTree (errors_or_empty form) (fst (unify call)) (errArr_of (fst (snd (unify call)))) (overwrites (snd (snd (unify call))))) of
        Inl e \<Rightarrow> (Inl e, form\<lparr>form_errors := Some (errors_or_empty form)\<rparr>)
      | Inr errors' \<Rightarrow>
          (Inr (ActionFailure (status_or_400 (snd (snd (unify call))))),
           form\<lparr>form_errors := Some errors', form_valid := False\<rparr>))"
  by (cases call)
     (auto simp: setError_def Let_def overwrites_def status_or_400_def split: option.splits sum.splits)


lemma setError_at_path:
  fixes form :: "'m superValidated"
  assumes "path \<noteq> []" and "splitPath path = Inr segs" and "segs \<noteq> []"
    and "\<not> enters_array (errors_or_empty form) segs"
  shows "\<exists>errors'. setError splitPath offTree form (AtPath path err options) =
           (Inr (ActionFailure (status_or_400 options)),
            form\<lparr>form_errors := Some errors', form_valid := False\<rparr>) \<and>
         read_path errors' segs =
           Some (ErrArray (if overwrites options then errArr_of err
                           else messages_of (errors_at form segs) @ errArr_of err)) \<and>
         \<not> enters_array errors' segs"
proof -
  from set_field_errors_resolved
         [where splitPath = splitPath and path = path and segs = segs
            and errors = "errors_or_empty form" and errArr = "errArr_of err"
            and ow = "overwrites options", OF assms(2,3,4)]
  obtain errors' where
    e: "set_field_errors splitPath offTree (errors_or_empty form) path (errArr_of err) (overwrites options)
          = Inr errors'"
    and r: "read_path errors' segs =
        Some (ErrArray (if overwrites options then errArr_of err
                        else messages_of (read_path (errors_or_empty form) segs) @ errArr_of err))"
    and a: "\<not> enters_array errors' segs"
    by blast
  have same: "read_path (errors_or_empty form) segs = errors_at form segs"
    using assms(3) by (simp add: errors_or_empty_def errors_at_def read_path_empty split: option.splits)
  have "setError splitPath offTree form (AtPath path err options) =
           (Inr (ActionFailure (status_or_400 options)),
            form\<lparr>form_errors := Some errors', form_valid := False\<rparr>)"
    using assms(1) e by (simp add: setError_unfold)
  then show ?thesis
    using r a same by auto
qed

section \<open>Two calls of setError on one path\<close>

text \<open>
  C7, as the code has it. Take a field path that \<open>splitPath\<close> resolves to segments which
  do not run through an array of messages (for the path \<open>'x'\<close>: the one segment \<open>x\<close>), and
  call \<open>setError(form, path, first)\<close> and then \<open>setError(form, path, second, options)\<close>.
  The messages are then found at the path itself, \<open>errors.x\<close>, and not under
  \<open>errors.x._errors\<close>, which is undefined. With \<open>overwrite\<close> false or omitted in the second
  call they are the messages that \<open>errors.x\<close> held before the two calls (none when it was
  missing or no array), followed by those of the first call and those of the second:
  \<open>['first', 'second']\<close> on a form without earlier messages. With \<open>overwrite: true\<close> they
  are those of the second call alone: \<open>['second']\<close>.
\<close>

theorem setError_twice_at_path:
  fixes form :: "'m superValidated"
  assumes "path \<noteq> []" and "splitPath path = Inr segs" and "segs \<noteq> []"
    and "\<not> enters_array (errors_or_empty form) segs"
  shows
    "errors_at (snd (setError splitPath offTree (snd (setError splitPath offTree form (AtPath path first None)))
                       (AtPath path second options))) segs =
       Some (ErrArray (if overwrites options then errArr_of second
                       else messages_of (errors_at form segs) @ errArr_of first @ errArr_of second)) \<and>
     errors_at (snd (setError splitPath offTree (snd (setError splitPath offTree form (AtPath path first None)))
                       (AtPath path second options))) (segs @ [''_errors'']) = None"
proof -
  from setError_at_path
         [where splitPath = splitPath and path = path and segs = segs and form = form
            and err = first and options = None, OF assms]
  obtain errors1 where
    one: "setError splitPath offTree form (AtPath path first None) =
            (Inr (ActionFailure (status_or_400 None)),
             form\<lparr>form_errors := Some errors1, form_valid := False\<rparr>)"
    and r1: "read_path errors1 segs =
               Some (ErrArray (messages_of (errors_at form segs) @ errArr_of first))"
    and a1: "\<not> enters_array errors1 segs"
    by (auto simp: overwrites_def)
  let ?form1 = "form\<lparr>form_errors := Some errors1, form_valid := False\<rparr>"
  have a1': "\<not> enters_array (errors_or_empty ?form1) segs"
    using a1 by (simp add: errors_or_empty_def)
  from setError_at_path
         [where splitPath = splitPath and path = path and segs = segs and form = ?form1
            and err = second and options = options, OF assms(1,2,3) a1']
  obtain errors2 where
    two: "setError splitPath offTree ?form1 (AtPath path second options) =
            (Inr (ActionFailure (status_or_400 options)),
             ?form1\<lparr>form_errors := Some errors2, form_valid := False\<rparr>)"
    and r2: "read_path errors2 segs =
               Some (ErrArray (if overwrites options then errArr_of second
                               else messages_of (errors_at ?form1 segs) @ errArr_of second))"
    by blast
  have before: "messages_of (errors_at ?form1 segs) = messages_of (errors_at form segs) @ errArr_of first"
    using r1 by (simp add: errors_at_def messages_of_def)
  have at_segs: "read_path errors2 segs =
      Some (ErrArray (if overwrites options then errArr_of second
                      else messages_of (errors_at form segs) @ errArr_of first @ errArr_of second))"
    using r2 before by simp
  have below: "read_path errors2 (segs @ [''_errors'']) = None"
    using at_segs by (rule read_path_below_array)
  show ?thesis
    using at_segs below by (simp add: one two errors_at_def)
qed

lemmas setError_example_defs =
  setError_def set_field_errors_def set_form_errors_def splitPath_example_def create_missing_def
  set_prop_def errors_or_empty_def errors_at_def form_example_def invalid_form_example_def
  form_with_errors_example_def Let_def

theorem setError_twice_at_path_witness:
  "''x'' \<noteq> [] \<and> splitPath_example ''x'' = Inr [''x''] \<and> [''x''] \<noteq> [] \<and>
   \<not> enters_array (errors_or_empty form_example) [''x''] \<and>
   errors_at (snd (setError splitPath_example goes_through
                (snd (setError splitPath_example goes_through form_example (AtPath ''x'' (One ''first'') None)))
                (AtPath ''x'' (One ''second'') None))) [''x''] =
     Some (ErrArray [''first'', ''second'']) \<and>
   errors_at (snd (setError splitPath_example goes_through
                (snd (setError splitPath_example goes_through form_example (AtPath ''x'' (One ''first'') None)))
                (AtPath ''x'' (One ''second'') (Some \<lparr>overwrite = Some False, status = None\<rparr>))))
       [''x''] =
     Some (ErrArray [''first'', ''second'']) \<and>
   errors_at (snd (setError splitPath_example goes_through
                (snd (setError splitPath_example goes_through form_example (AtPath ''x'' (One ''first'') None)))
                (AtPath ''x'' (One ''second'') (Some \<lparr>overwrite = Some True, status = None\<rparr>))))
       [''x''] =
     Some (ErrArray [''second''])"
proof -
  have h: "''x'' \<noteq> []" "splitPath_example ''x'' = Inr [''x'']" "[''x''] \<noteq> []"
    "\<not> enters_array (errors_or_empty form_example) [''x'']"
    by (simp_all add: splitPath_example_def)
  have o: "\<not> overwrites None" "\<not> overwrites (Some \<lparr>overwrite = Some False, status = None\<rparr>)"
    "overwrites (Some \<lparr>overwrite = Some True, status = None\<rparr>)"
    "messages_of (errors_at form_example [''x'']) = []"
    by (simp_all add: overwrites_def messages_of_def errors_at_def form_example_def)
  show ?thesis
    using h
      setError_twice_at_path [where splitPath = splitPath_example and form = form_example and first = "One ''first''"
            and second = "One ''second''" and options = None, OF h, THEN conjunct1]
      setError_twice_at_path [where splitPath = splitPath_example and form = form_example and first = "One ''first''"
            and second = "One ''second''"
            and options = "Some \<lparr>overwrite = Some False, status = None\<rparr>", OF h, THEN conjunct1]
      setError_twice_at_path [where splitPath = splitPath_example and form = form_example and first = "One ''first''"
            and second = "One ''second''"
            and options = "Some \<lparr>overwrite = Some True, status = None\<rparr>", OF h, THEN conjunct1]
    by (simp add: o)
qed

text \<open>On a form without errors the two calls leave \<open>errors.x = ['first', 'second']\<close> and
  \<open>errors.x._errors\<close> undefined; on a form that held \<open>errors.x = ['old']\<close> they leave
  \<open>errors.x = ['old', 'first', 'second']\<close>.\<close>

theorem setError_twice_own_errors_counterexample:
  "errors_at (snd (setError splitPath_example goes_through
                (snd (setError splitPath_example goes_through form_example (AtPath ''x'' (One ''first'') None)))
                (AtPath ''x'' (One ''second'') (Some \<lparr>overwrite = Some False, status = None\<rparr>))))
       [''x'', ''_errors''] = None \<and>
   errors_at (snd (setError splitPath_example goes_through
                (snd (setError splitPath_example goes_through form_example (AtPath ''x'' (One ''first'') None)))
                (AtPath ''x'' (One ''second'') (Some \<lparr>overwrite = Some False, status = None\<rparr>))))
       [''x''] = Some (ErrArray [''first'', ''second'']) \<and>
   errors_at (snd (setError splitPath_example goes_through
                (snd (setError splitPath_example goes_through form_with_errors_example
                        (AtPath ''x'' (One ''first'') None)))
                (AtPath ''x'' (One ''second'') (Some \<lparr>overwrite = Some False, status = None\<rparr>))))
       [''x''] = Some (ErrArray [''old'', ''first'', ''second''])"
  by (simp add: setError_example_defs)

section \<open>setError and the valid flag\<close>

text \<open>
  C8. After a call to \<open>setError\<close> the form's \<open>valid\<close> flag is false, whatever it was before
  and whatever the path and the messages: \<open>form.valid = false\<close> is the last statement
  before the return, so every call that returns has set it. And the call does return,
  with \<open>fail(options.status ?? 400, {form})\<close>: for a form-level call (no path, or the
  empty path) on a form whose \<open>_errors\<close>, if present, is an array, as its type says; and
  for a field path that \<open>splitPath\<close> resolves, when its segments stay inside the error
  tree or, where they run through an array of messages, when nothing throws there. Only
  a call that throws (\<open>splitPath\<close> refusing the path, \<open>concat\<close> on an \<open>_errors\<close> that is
  no array, a write that JavaScript refuses) leaves the flag as it was.
\<close>

theorem setError_invalidates:
  fixes form :: "'m superValidated"
  shows
  "(fst (setError splitPath offTree form call) = Inr resp \<longrightarrow>
      \<not> form_valid (snd (setError splitPath offTree form call))) \<and>
   (own_errors_typed (errors_or_empty form) \<longrightarrow>
      fst (setError splitPath offTree form (FormLevel err options)) =
        Inr (ActionFailure (status_or_400 options)) \<and>
      \<not> form_valid (snd (setError splitPath offTree form (FormLevel err options))) \<and>
      fst (setError splitPath offTree form (AtPath [] err options)) =
        Inr (ActionFailure (status_or_400 options)) \<and>
      \<not> form_valid (snd (setError splitPath offTree form (AtPath [] err options)))) \<and>
   (path \<noteq> [] \<and> splitPath path = Inr segs \<and>
    (\<not> enters_array (errors_or_empty form) segs \<or> (\<forall>msgs rest. offTree msgs rest = None)) \<longrightarrow>
      fst (setError splitPath offTree form (AtPath path err options)) =
        Inr (ActionFailure (status_or_400 options)) \<and>
      \<not> form_valid (snd (setError splitPath offTree form (AtPath path err options))))"
proof -
  have returned: "fst (setError splitPath offTree form call) = Inr resp \<Longrightarrow>
      \<not> form_valid (snd (setError splitPath offTree form call))"
    by (auto simp: setError_unfold split: sum.splits if_splits)
  have form_level: "fst (setError splitPath offTree form (FormLevel err options)) =
        Inr (ActionFailure (status_or_400 options)) \<and>
      \<not> form_valid (snd (setError splitPath offTree form (FormLevel err options))) \<and>
      fst (setError splitPath offTree form (AtPath [] err options)) =
        Inr (ActionFailure (status_or_400 options)) \<and>
      \<not> form_valid (snd (setError splitPath offTree form (AtPath [] err options)))"
    if "own_errors_typed (errors_or_empty form)"
    using that by (simp add: setError_unfold set_form_errors_typed)
  have at_path: "fst (setError splitPath offTree form (AtPath path err options)) =
        Inr (ActionFailure (status_or_400 options)) \<and>
      \<not> form_valid (snd (setError splitPath offTree form (AtPath path err options)))"
    if "path \<noteq> []" and "splitPath path = Inr segs"
      and "\<not> enters_array (errors_or_empty form) segs \<or> (\<forall>msgs rest. offTree msgs rest = None)"
  proof -
    from set_field_errors_returns
           [where splitPath = splitPath and path = path and segs = segs
              and errors = "errors_or_empty form" and offTree = offTree
              and errArr = "errArr_of err" and ow = "overwrites options", OF that(2,3)]
    obtain errors' where
      "set_field_errors splitPath offTree (errors_or_empty form) path (errArr_of err)
         (overwrites options) = Inr errors'"
      by blast
    then show ?thesis
      using that(1) by (simp add: setError_unfold)
  qed
  show ?thesis
    using returned form_level at_path by blast
qed

theorem setError_invalidates_witness:
  "form_valid form_example \<and>
   fst (setError splitPath_example goes_through form_example (AtPath [] (One ''boom'') None)) =
     Inr (ActionFailure 400) \<and>
   \<not> form_valid (snd (setError splitPath_example goes_through form_example
                        (AtPath [] (One ''boom'') None))) \<and>
   own_errors_typed (errors_or_empty form_example) \<and>
   \<not> form_valid (snd (setError splitPath_example goes_through form_example
                        (FormLevel (One ''boom'') None))) \<and>
   ''a.b'' \<noteq> [] \<and> splitPath_example ''a.b'' = Inr [''a'', ''b''] \<and>
   \<not> enters_array (errors_or_empty form_example) [''a'', ''b''] \<and>
   fst (setError splitPath_example goes_through form_example
          (AtPath ''a.b'' (Many [''m1'', ''m2''])
             (Some \<lparr>overwrite = Some True, status = Some 422\<rparr>))) =
     Inr (ActionFailure 422) \<and>
   \<not> form_valid (snd (setError splitPath_example goes_through form_example
          (AtPath ''a.b'' (Many [''m1'', ''m2''])
             (Some \<lparr>overwrite = Some True, status = Some 422\<rparr>)))) \<and>
   form_valid (form_example\<lparr>form_errors := Some [(''x'', ErrArray [''old''])]\<rparr>) \<and>
   ''x.y'' \<noteq> [] \<and> splitPath_example ''x.y'' = Inr [''x'', ''y''] \<and>
   enters_array
     (errors_or_empty (form_example\<lparr>form_errors := Some [(''x'', ErrArray [''old''])]\<rparr>))
     [''x'', ''y''] \<and>
   (\<forall>msgs rest. goes_through msgs rest = None) \<and>
   fst (setError splitPath_example goes_through
          (form_example\<lparr>form_errors := Some [(''x'', ErrArray [''old''])]\<rparr>)
          (AtPath ''x.y'' (One ''m'') None)) = Inr (ActionFailure 400) \<and>
   \<not> form_valid (snd (setError splitPath_example goes_through
          (form_example\<lparr>form_errors := Some [(''x'', ErrArray [''old''])]\<rparr>)
          (AtPath ''x.y'' (One ''m'') None)))"
proof -
  let ?held = "form_example\<lparr>form_errors := Some [(''x'', ErrArray [''old''])]\<rparr>"
  have v: "form_valid form_example" "form_valid ?held"
    by (simp_all add: form_example_def)
  have r: "fst (setError splitPath_example goes_through form_example
                  (AtPath [] (One ''boom'') None)) = Inr (ActionFailure 400)"
    by (simp add: setError_example_defs)
  have t: "own_errors_typed (errors_or_empty form_example)"
    by (simp add: own_errors_typed_def errors_or_empty_def form_example_def)
  have p: "''a.b'' \<noteq> []" "splitPath_example ''a.b'' = Inr [''a'', ''b'']"
    "\<not> enters_array (errors_or_empty form_example) [''a'', ''b'']"
    by (simp_all add: splitPath_example_def errors_or_empty_def form_example_def)
  have q: "''x.y'' \<noteq> []" "splitPath_example ''x.y'' = Inr [''x'', ''y'']"
    "enters_array (errors_or_empty ?held) [''x'', ''y'']"
    "\<forall>msgs rest. goes_through msgs rest = None"
    by (simp_all add: splitPath_example_def errors_or_empty_def form_example_def
          goes_through_def)
  have s: "status_or_400 (Some \<lparr>overwrite = Some True, status = Some 422\<rparr>) = 422"
    "status_or_400 None = 400"
    by (simp_all add: status_or_400_def)
  note w = setError_invalidates [where splitPath = splitPath_example
      and offTree = goes_through and form = form_example
      and call = "AtPath [] (One ''boom'') None" and resp = "ActionFailure 400"
      and path = "''a.b''" and segs = "[''a'', ''b'']"]
  show ?thesis
    using v r t p q
      w [where err = "One ''boom''" and options = None, THEN conjunct1]
      w [where err = "One ''boom''" and options = None, THEN conjunct2, THEN conjunct1]
      w [where err = "Many [''m1'', ''m2'']"
           and options = "Some \<lparr>overwrite = Some True, status = Some 422\<rparr>",
         THEN conjunct2, THEN conjunct2]
      setError_invalidates [where splitPath = splitPath_example and offTree = goes_through
        and form = ?held and call = "AtPath [] (One ''boom'') None"
        and resp = "ActionFailure 400" and path = "''x.y''" and segs = "[''x'', ''y'']"
        and err = "One ''m''" and options = None, THEN conjunct2, THEN conjunct2]
    by (simp add: s)
qed

section \<open>What the mutation calls leave alone\<close>

text \<open>
  C9. \<open>setError\<close> and \<open>message\<close> never change the form's id, data, posted flag or
  constraints: the form after \<open>setError\<close> is the form before it but for the errors tree and
  the valid flag, and the form after \<open>message\<close> is the form before it but for the message
  and the valid flag. In particular the id assigned at creation stays. (The data and
  the errors tree are separate values here, as the spec has the form own them.)
\<close>

theorem mutations_keep_identity:
  fixes form :: "'m superValidated"
  shows
  "snd (setError splitPath offTree form call) =
     form\<lparr>form_errors := form_errors (snd (setError splitPath offTree form call)),
          form_valid := form_valid (snd (setError splitPath offTree form call))\<rparr> \<and>
   form_id (snd (setError splitPath offTree form call)) = form_id form \<and>
   form_data (snd (setError splitPath offTree form call)) = form_data form \<and>
   form_posted (snd (setError splitPath offTree form call)) = form_posted form \<and>
   form_constraints (snd (setError splitPath offTree form call)) = form_constraints form \<and>
   snd (message form msg options) =
     form\<lparr>form_message := Some msg, form_valid := form_valid (snd (message form msg options))\<rparr> \<and>
   form_id (snd (message form msg options)) = form_id form \<and>
   form_data (snd (message form msg options)) = form_data form \<and>
   form_posted (snd (message form msg options)) = form_posted form \<and>
   form_constraints (snd (message form msg options)) = form_constraints form"
proof -
  have s: "snd (setError splitPath offTree form call) =
     form\<lparr>form_errors := form_errors (snd (setError splitPath offTree form call)),
          form_valid := form_valid (snd (setError splitPath offTree form call))\<rparr>"
    by (simp add: setError_unfold split: sum.splits)
  have m: "snd (message form msg options) =
     form\<lparr>form_message := Some msg, form_valid := form_valid (snd (message form msg options))\<rparr>"
    by (simp add: message_def Let_def)
  have sf: "form_id (snd (setError splitPath offTree form call)) = form_id form"
    "form_data (snd (setError splitPath offTree form call)) = form_data form"
    "form_posted (snd (setError splitPath offTree form call)) = form_posted form"
    "form_constraints (snd (setError splitPath offTree form call)) = form_constraints form"
    by (subst s, simp)+
  have mf: "form_id (snd (message form msg options)) = form_id form"
    "form_data (snd (message form msg options)) = form_data form"
    "form_posted (snd (message form msg options)) = form_posted form"
    "form_constraints (snd (message form msg options)) = form_constraints form"
    by (subst m, simp)+
  show ?thesis
    using s m sf mf by blast
qed

theorem mutations_keep_identity_witness:
  "form_id (snd (setError splitPath_example goes_through form_example (AtPath ''x'' (One ''first'') None))) =
     Some ''k3x9ab'' \<and>
   form_data (snd (setError splitPath_example goes_through form_example (AtPath ''x'' (One ''first'') None))) =
     [(''name'', JString ''Ada''), (''email'', JString ''ada@example.org'')] \<and>
   form_posted (snd (setError splitPath_example goes_through form_example (AtPath ''x'' (One ''first'') None))) \<and>
   form_id (snd (message form_example ''saved'' (Some \<lparr>message_status = Some 422\<rparr>))) =
     Some ''k3x9ab'' \<and>
   form_data (snd (message form_example ''saved'' (Some \<lparr>message_status = Some 422\<rparr>))) =
     [(''name'', JString ''Ada''), (''email'', JString ''ada@example.org'')] \<and>
   form_posted (snd (message form_example ''saved'' (Some \<lparr>message_status = Some 422\<rparr>)))"
  using mutations_keep_identity [where splitPath = splitPath_example and form = form_example
              and call = "AtPath ''x'' (One ''first'') None" and msg = "''saved''"
              and options = "Some \<lparr>message_status = Some 422\<rparr>"]
  by (simp add: form_example_def)

end
